theory Spec2Isabelle
  imports Complex_Main "HOL-Library.Stream" "HOL-Library.Sublist" "HOL-Library.Log_Nat"
begin

section \<open>Data model (types.ts)\<close>

text \<open>
  A TypeScript \<open>number\<close> is a double.  Health, the starting health, the probabilities and
  the revolver rotation are modelled as \<open>real\<close>, the finite values of a double (\<open>NaN\<close> and
  the infinities are left out); arithmetic on them rounds as the double operation does
  (\<open>fl64\<close> below).  Timestamps and the actor count are \<open>int\<close>, positions are \<open>nat\<close>.
  Strings are byte lists.  The record fields \<open>id\<close> and \<open>type\<close> of the source are called
  \<open>id_player\<close> and \<open>type_player\<close>.
\<close>

datatype PlayerType = HUMAN | AI

datatype GamePhase = SETUP | SPINNING | CHOOSING_TARGET | SHOOTING | GAME_OVER

record Player =
  id_player :: string
  name :: string
  type_player :: PlayerType
  health :: real
  isAlive :: bool
  position :: nat
  avatar :: string

record AIMemory =
  playerId :: string
  grudges :: "string list"

text \<open>
  \<open>shooter\<close> and \<open>target\<close> of a turn record are declared \<open>string\<close> in the source, but the
  reducer stores \<open>state.currentShooter!\<close> and \<open>state.selectedTarget!\<close>, which are \<open>null\<close>
  at run time when nothing is armed or selected; hence the option type.
\<close>

record TurnRecord =
  timestamp :: int
  shooter :: "string option"
  target :: "string option"
  wasBlank :: bool
  killed :: bool

record GameState =
  players :: "Player list"
  currentShooter :: "string option"
  selectedTarget :: "string option"
  phase :: GamePhase
  revolverRotation :: real
  aiMemories :: "string \<rightharpoonup> AIMemory"
  turnHistory :: "TurnRecord list"
  gameStartTime :: int
  lastSaveTime :: int

record GameConfig =
  playerCount :: int
  startingHealth :: real
  blankProbability :: real
  playerShootChance :: real
  aiShootChance :: real

text \<open>The only run-time failure of the engine code: a property read on \<open>undefined\<close>/\<open>null\<close>.\<close>

datatype error = TypeError

text \<open>
  \<open>Math.random()\<close> is modelled by an explicit stream of draws: every call takes the head
  of the stream and leaves the tail.  The draws are idealised as reals; the library
  function returns a value in \<open>[0, 1)\<close>, which the theorems assume where they need it.
\<close>

type_synonym rng = "real stream"


text \<open>JavaScript array read \<open>xs[i]\<close>: \<open>undefined\<close> outside the array.\<close>

definition js_index :: "'a list \<Rightarrow> int \<Rightarrow> 'a option" where
  "js_index xs i = (if 0 \<le> i \<and> i < int (length xs) then Some (xs ! nat i) else None)"

text \<open>\<open>String.prototype.startsWith\<close>.\<close>

definition startsWith :: "string \<Rightarrow> string \<Rightarrow> bool" where
  "startsWith s pre = prefix pre s"

text \<open>Decimal rendering of a non-negative integer, as a template literal does.\<close>

fun string_of_nat :: "nat \<Rightarrow> string" where
  "string_of_nat n =
     (if n < 10 then [''0123456789'' ! n]
      else string_of_nat (n div 10) @ [''0123456789'' ! (n mod 10)])"

declare string_of_nat.simps [simp del]

section \<open>Double arithmetic\<close>

text \<open>
  The result of an arithmetic operation on doubles is the exact result rounded to the
  nearest double, ties to the even significand (IEEE 754 binary64).  \<open>round_even\<close> is the
  nearest integer with ties to even; \<open>binade x\<close> is the exponent \<open>e\<close> with
  \<open>2^e \<le> |x| < 2^(e+1)\<close>; \<open>ulp64 x\<close> is the spacing of the doubles around \<open>x\<close>, with 53
  significant bits and the smallest exponent \<open>-1022\<close> (below it the spacing stays
  \<open>2^-1074\<close>); \<open>fl64 x\<close> is \<open>x\<close> rounded.  Magnitudes from \<open>2^1024\<close> on, where the code has
  \<open>Infinity\<close>, are reached by no operation modelled here on doubles.
\<close>

definition round_even :: "real \<Rightarrow> int" where
  "round_even q =
     (let f = \<lfloor>q\<rfloor>; d = q - of_int f
      in if d < 1/2 then f else if 1/2 < d then f + 1 else if even f then f else f + 1)"

definition binade :: "real \<Rightarrow> int" where
  "binade x = (if 1 \<le> \<bar>x\<bar> then bitlen \<lfloor>\<bar>x\<bar>\<rfloor> - 1 else - bitlen (\<lceil>1 / \<bar>x\<bar>\<rceil> - 1))"

definition ulp64 :: "real \<Rightarrow> real" where
  "ulp64 x = 2 powi (max (binade x) (- 1022) - 52)"

definition fl64 :: "real \<Rightarrow> real" where
  "fl64 x = (if x = 0 then 0 else of_int (round_even (x / ulp64 x)) * ulp64 x)"

section \<open>Constants (constants.ts)\<close>

definition GAME_CONFIG :: GameConfig where
  "GAME_CONFIG = \<lparr> playerCount = 5, startingHealth = 3, blankProbability = 1/2,
                   playerShootChance = 2/5, aiShootChance = 3/5 \<rparr>"

definition AI_NAMES :: "string list" where
  "AI_NAMES = [''Viktor'', ''Natasha'', ''Boris'', ''Svetlana'']"

text \<open>The five emoji of \<open>PLAYER_AVATARS\<close>, as their UTF-8 bytes.\<close>

definition PLAYER_AVATARS :: "string list" where
  "PLAYER_AVATARS =
     [[CHR 0xF0, CHR 0x9F, CHR 0x8E, CHR 0xAF],
      [CHR 0xF0, CHR 0x9F, CHR 0xA4, CHR 0x96],
      [CHR 0xF0, CHR 0x9F, CHR 0x8E, CHR 0xB2],
      [CHR 0xF0, CHR 0x9F, CHR 0x8E, CHR 0xB0],
      [CHR 0xF0, CHR 0x9F, CHR 0x8E, CHR 0xAA]]"

section \<open>GameEngine (gameEngine.ts)\<close>

text \<open>
  \<open>initializeGame\<close> reads the clock twice (\<open>Date.now()\<close> for \<open>gameStartTime\<close> and for
  \<open>lastSaveTime\<close>); the two readings are the parameters \<open>t0\<close> and \<open>t1\<close>.
\<close>

definition initializeGame :: "GameConfig \<Rightarrow> int \<Rightarrow> int \<Rightarrow> GameState" where
  "initializeGame config t0 t1 =
     \<lparr> players =
         \<lparr> id_player = ''player-0'', name = ''You'', type_player = HUMAN,
           health = startingHealth config, isAlive = True, position = 0,
           avatar = PLAYER_AVATARS ! 0 \<rparr>
         # map (\<lambda>(i, nm).
               \<lparr> id_player = ''ai-'' @ string_of_nat (i + 1), name = nm, type_player = AI,
                 health = startingHealth config, isAlive = True, position = i + 1,
                 avatar = PLAYER_AVATARS ! (i + 1) \<rparr>)
             (enumerate 0 AI_NAMES),
       currentShooter = None,
       selectedTarget = None,
       phase = SETUP,
       revolverRotation = 0,
       aiMemories = Map.empty,
       turnHistory = [],
       gameStartTime = t0,
       lastSaveTime = t1 \<rparr>"



text \<open>\<open>attemptShot\<close> returns \<open>isHit\<close>: one draw, compared with the literal \<open>0.5\<close>.\<close>

definition attemptShot :: "rng \<Rightarrow> bool \<times> rng" where
  "attemptShot g = (shd g > 1/2, stl g)"

text \<open>\<open>applyDamage\<close>: the double subtraction \<open>player.health - 1\<close>.\<close>

definition applyDamage :: "Player \<Rightarrow> Player" where
  "applyDamage player =
     (let newHealth = fl64 (health player - 1)
      in player\<lparr> health := newHealth, isAlive := (newHealth > 0) \<rparr>)"

record GameOverCheck =
  isOver :: bool
  winner :: "Player option"

definition checkGameOver :: "Player list \<Rightarrow> GameOverCheck" where
  "checkGameOver ps =
     (let alivePlayers = filter isAlive ps
      in if length alivePlayers = 1 then \<lparr> isOver = True, winner = Some (alivePlayers ! 0) \<rparr>
         else if length alivePlayers = 0 then \<lparr> isOver = True, winner = None \<rparr>
         else \<lparr> isOver = False, winner = None \<rparr>)"

text \<open>\<open>recordTurn\<close> reads the clock once (\<open>now\<close>).\<close>

definition recordTurn ::
  "GameState \<Rightarrow> string option \<Rightarrow> string option \<Rightarrow> bool \<Rightarrow> bool \<Rightarrow> int \<Rightarrow> GameState" where
  "recordTurn state sh tg blank kd now =
     (let newHistory = \<lparr> timestamp = now, shooter = sh, target = tg,
                          wasBlank = blank, killed = kd \<rparr>
      in state\<lparr> turnHistory := turnHistory state @ [newHistory] \<rparr>)"

section \<open>AIEngine (aiEngine.ts)\<close>

text \<open>\<open>Array.prototype.findIndex\<close>: the first index whose element satisfies \<open>P\<close>, or \<open>-1\<close>.\<close>

fun findIndex :: "('a \<Rightarrow> bool) \<Rightarrow> 'a list \<Rightarrow> int" where
  "findIndex P [] = - 1"
| "findIndex P (x # xs) =
     (if P x then 0 else (let i = findIndex P xs in if i < 0 then - 1 else i + 1))"

text \<open>
  \<open>decideTarget\<close> is a cascade of early returns; each priority is a function that either
  returns or passes the remaining draws on to the next one.  A probabilistic branch
  consumes its draw only when it is reached.  \<open>Array.prototype.sort\<close> is stable, as is
  \<open>sort_key\<close>.  The index products of the policy are written without rounding: the
  results about the policy use of an index only that it lies in the list.
\<close>

definition decide_fallback :: "Player list \<Rightarrow> rng \<Rightarrow> error + (string \<times> rng)" where
  "decide_fallback alivePlayers g =
     (case js_index alivePlayers \<lfloor>shd g * real (length alivePlayers)\<rfloor> of
        None \<Rightarrow> Inl TypeError
      | Some p \<Rightarrow> Inr (id_player p, stl g))"

definition decide_lowest_ai :: "Player list \<Rightarrow> rng \<Rightarrow> error + (string \<times> rng)" where
  "decide_lowest_ai alivePlayers g =
     (let aiTargets = filter (\<lambda>p. type_player p = AI) alivePlayers
      in if length aiTargets > 0 then Inr (id_player (sort_key health aiTargets ! 0), g)
         else decide_fallback alivePlayers g)"

definition decide_human :: "Player list \<Rightarrow> rng \<Rightarrow> error + (string \<times> rng)" where
  "decide_human alivePlayers g =
     (case find (\<lambda>p. type_player p = HUMAN) alivePlayers of
        Some humanPlayer \<Rightarrow>
          if shd g < 3/5 then Inr (id_player humanPlayer, stl g)
          else decide_lowest_ai alivePlayers (stl g)
      | None \<Rightarrow> decide_lowest_ai alivePlayers g)"

definition decideTarget ::
  "Player \<Rightarrow> Player list \<Rightarrow> (string \<rightharpoonup> AIMemory) \<Rightarrow> GameConfig \<Rightarrow> rng
     \<Rightarrow> error + (string \<times> rng)" where
  "decideTarget aiPlayer allPlayers aiMems config g =
     (let memory = aiMems (id_player aiPlayer);
          alivePlayers = filter (\<lambda>p. isAlive p \<and> id_player p \<noteq> id_player aiPlayer) allPlayers
      in case memory of
           None \<Rightarrow> decide_human alivePlayers g
         | Some m \<Rightarrow>
             if length (grudges m) > 0 then
               (let grudgeTargets = filter (\<lambda>p. id_player p \<in> set (grudges m)) alivePlayers
                in if length grudgeTargets > 0 then
                     (if shd g < 4/5 then
                        (case js_index grudgeTargets
                                \<lfloor>shd (stl g) * real (length grudgeTargets)\<rfloor> of
                           None \<Rightarrow> Inl TypeError
                         | Some p \<Rightarrow> Inr (id_player p, stl (stl g)))
                      else decide_human alivePlayers (stl g))
                   else decide_human alivePlayers g)
             else decide_human alivePlayers g)"

text \<open>
  \<open>updateMemory\<close> copies the map and, for a blank on a target whose id starts with
  \<open>ai-\<close>, appends the shooter to the target's grudge list unless it is already there.
  (The source pushes onto the array of the stored memory object, which the old map shares;
  the model describes the returned map.)
\<close>

definition updateMemory ::
  "(string \<rightharpoonup> AIMemory) \<Rightarrow> string \<Rightarrow> string \<Rightarrow> bool \<Rightarrow> (string \<rightharpoonup> AIMemory)" where
  "updateMemory aiMems targetId shooterIdent blank =
     (if blank \<and> startsWith targetId ''ai-'' then
        (let memory = (case aiMems targetId of
                         Some m \<Rightarrow> m
                       | None \<Rightarrow> \<lparr> playerId = targetId, grudges = [] \<rparr>);
             memory' = (if shooterIdent \<notin> set (grudges memory)
                        then memory\<lparr> grudges := grudges memory @ [shooterIdent] \<rparr>
                        else memory)
         in aiMems(targetId \<mapsto> memory'))
      else aiMems)"

text \<open>The grudge list stored for a victim (empty when the victim has no entry).\<close>

definition grudgeList :: "(string \<rightharpoonup> AIMemory) \<Rightarrow> string \<Rightarrow> string list" where
  "grudgeList m v = (case m v of None \<Rightarrow> [] | Some mem \<Rightarrow> grudges mem)"

text \<open>
  \<open>executeAITurn\<close> without its delays: the result is the list of states handed to
  \<open>onUpdate\<close>, in order (none when the armed actor is missing or not autonomous).  The
  first draw is the one spent on the thinking delay.  A throw in \<open>decideTarget\<close> rejects
  the promise before the first \<open>onUpdate\<close>.  The target id is taken from the list of
  actors, so the later read of the target never meets \<open>undefined\<close>
  (\<open>executeAITurn_players\<close> below); the model keeps that branch as an error all the same.
\<close>

definition executeAITurn ::
  "GameState \<Rightarrow> GameConfig \<Rightarrow> rng \<Rightarrow> int \<Rightarrow> error + GameState list" where
  "executeAITurn state config g now =
     (case find (\<lambda>p. Some (id_player p) = currentShooter state) (players state) of
        None \<Rightarrow> Inr []
      | Some sh \<Rightarrow>
          if type_player sh \<noteq> AI then Inr []
          else
            (case decideTarget sh (players state) (aiMemories state) config (stl g) of
               Inl e \<Rightarrow> Inl e
             | Inr (targetId, g') \<Rightarrow>
                 (let u1 = state\<lparr> selectedTarget := Some targetId, phase := CHOOSING_TARGET \<rparr>;
                      isHit = fst (attemptShot g');
                      targetIndex = findIndex (\<lambda>p. id_player p = targetId) (players state)
                  in case (if isHit
                           then (case js_index (players state) targetIndex of
                                   None \<Rightarrow> Inl TypeError
                                 | Some tg \<Rightarrow> Inr ((players state)[nat targetIndex := applyDamage tg]))
                           else Inr (players state)) of
                       Inl e \<Rightarrow> Inl e
                     | Inr newPlayers \<Rightarrow>
                         (let kd = (isHit \<and> \<not> isAlive (newPlayers ! nat targetIndex));
                              newMemories =
                                (if \<not> isHit
                                 then updateMemory (aiMemories state) targetId (id_player sh) True
                                 else aiMemories state);
                              newState =
                                recordTurn
                                  (state\<lparr> players := newPlayers, aiMemories := newMemories,
                                          phase := SHOOTING \<rparr>)
                                  (Some (id_player sh)) (Some targetId) (\<not> isHit) kd now;
                              u3 = (if isOver (checkGameOver newPlayers)
                                    then newState\<lparr> phase := GAME_OVER \<rparr>
                                    else newState\<lparr> phase := SETUP, currentShooter := None,
                                                   selectedTarget := None \<rparr>)
                          in Inr [u1, newState, u3]))))"

section \<open>The reducer (useGameState.ts)\<close>

text \<open>\<open>Partial<GameState>\<close>: every field may be absent.\<close>

record PartialGameState =
  players_opt :: "Player list option"
  currentShooter_opt :: "string option option"
  selectedTarget_opt :: "string option option"
  phase_opt :: "GamePhase option"
  revolverRotation_opt :: "real option"
  aiMemories_opt :: "(string \<rightharpoonup> AIMemory) option"
  turnHistory_opt :: "TurnRecord list option"
  gameStartTime_opt :: "int option"
  lastSaveTime_opt :: "int option"

text \<open>The object spread \<open>{...state, ...payload}\<close>.\<close>

definition spread :: "GameState \<Rightarrow> PartialGameState \<Rightarrow> GameState" where
  "spread state u =
     \<lparr> players = (case players_opt u of None \<Rightarrow> players state | Some v \<Rightarrow> v),
       currentShooter = (case currentShooter_opt u of None \<Rightarrow> currentShooter state | Some v \<Rightarrow> v),
       selectedTarget = (case selectedTarget_opt u of None \<Rightarrow> selectedTarget state | Some v \<Rightarrow> v),
       phase = (case phase_opt u of None \<Rightarrow> phase state | Some v \<Rightarrow> v),
       revolverRotation =
         (case revolverRotation_opt u of None \<Rightarrow> revolverRotation state | Some v \<Rightarrow> v),
       aiMemories = (case aiMemories_opt u of None \<Rightarrow> aiMemories state | Some v \<Rightarrow> v),
       turnHistory = (case turnHistory_opt u of None \<Rightarrow> turnHistory state | Some v \<Rightarrow> v),
       gameStartTime = (case gameStartTime_opt u of None \<Rightarrow> gameStartTime state | Some v \<Rightarrow> v),
       lastSaveTime = (case lastSaveTime_opt u of None \<Rightarrow> lastSaveTime state | Some v \<Rightarrow> v) \<rparr>"

text \<open>A whole state used as an \<open>UPDATE_STATE\<close> payload, as \<open>GameContext\<close> does with \<open>onUpdate\<close>.\<close>

definition whole :: "GameState \<Rightarrow> PartialGameState" where
  "whole u =
     \<lparr> players_opt = Some (players u), currentShooter_opt = Some (currentShooter u),
       selectedTarget_opt = Some (selectedTarget u), phase_opt = Some (phase u),
       revolverRotation_opt = Some (revolverRotation u), aiMemories_opt = Some (aiMemories u),
       turnHistory_opt = Some (turnHistory u), gameStartTime_opt = Some (gameStartTime u),
       lastSaveTime_opt = Some (lastSaveTime u) \<rparr>"

text \<open>The action type \<open>'GAME_OVER'\<close> is called \<open>GAME_OVER_action\<close>: the phase has the name.\<close>

datatype GameAction =
    INIT_GAME GameConfig
  | LOAD_GAME GameState
  | SPIN_REVOLVER
  | SET_SPINNER_RESULT real string
  | SELECT_TARGET string
  | SHOOT
  | SHOT_RESULT bool
  | NEXT_TURN
  | GAME_OVER_action
  | UPDATE_STATE PartialGameState

text \<open>
  \<open>gameReducer\<close>.  The pair \<open>now\<close> holds the clock readings made during the call
  (\<open>INIT_GAME\<close> makes two, \<open>SHOT_RESULT\<close> one).  It throws in \<open>SHOT_RESULT\<close> when a hit
  finds no actor with the selected id (\<open>applyDamage(undefined)\<close>) and when the human's
  blank has no selected target (\<open>null.startsWith\<close>).
\<close>

fun gameReducer :: "int \<times> int \<Rightarrow> GameState \<Rightarrow> GameAction \<Rightarrow> error + GameState" where
  "gameReducer now state (INIT_GAME config) = Inr (initializeGame config (fst now) (snd now))"
| "gameReducer now state (LOAD_GAME payload) = Inr payload"
| "gameReducer now state SPIN_REVOLVER = Inr (state\<lparr> phase := SPINNING \<rparr>)"
| "gameReducer now state (SET_SPINNER_RESULT rotation sid) =
     Inr (state\<lparr> revolverRotation := rotation, currentShooter := Some sid,
                 phase := CHOOSING_TARGET \<rparr>)"
| "gameReducer now state (SELECT_TARGET payload) = Inr (state\<lparr> selectedTarget := Some payload \<rparr>)"
| "gameReducer now state SHOOT = Inr (state\<lparr> phase := SHOOTING \<rparr>)"
| "gameReducer now state (SHOT_RESULT isHit) =
     (let targetIndex = findIndex (\<lambda>p. Some (id_player p) = selectedTarget state) (players state)
      in case (if isHit
               then (case js_index (players state) targetIndex of
                       None \<Rightarrow> Inl TypeError
                     | Some tg \<Rightarrow> Inr ((players state)[nat targetIndex := applyDamage tg]))
               else Inr (players state)) of
           Inl e \<Rightarrow> Inl e
         | Inr newPlayers \<Rightarrow>
             (let kd = (isHit \<and> \<not> isAlive (newPlayers ! nat targetIndex))
              in case (if \<not> isHit \<and> currentShooter state = Some ''player-0''
                       then (case selectedTarget state of
                               None \<Rightarrow> Inl TypeError
                             | Some tid \<Rightarrow>
                                 Inr (updateMemory (aiMemories state) tid ''player-0'' True))
                       else Inr (aiMemories state)) of
                   Inl e \<Rightarrow> Inl e
                 | Inr newMemories \<Rightarrow>
                     Inr (recordTurn
                            (state\<lparr> players := newPlayers, aiMemories := newMemories \<rparr>)
                            (currentShooter state) (selectedTarget state) (\<not> isHit) kd
                            (fst now))))"
| "gameReducer now state NEXT_TURN =
     Inr (state\<lparr> phase := SETUP, currentShooter := None, selectedTarget := None \<rparr>)"
| "gameReducer now state GAME_OVER_action = Inr (state\<lparr> phase := GAME_OVER \<rparr>)"
| "gameReducer now state (UPDATE_STATE payload) = Inr (spread state payload)"

section \<open>Sessions\<close>

text \<open>
  The actions of a running session.  \<open>INIT_GAME\<close> starts a new session, \<open>LOAD_GAME\<close> and
  \<open>UPDATE_STATE\<close> install a state given from outside; \<open>UPDATE_STATE\<close> enters a session only
  with the states that \<open>executeAITurn\<close> hands to \<open>onUpdate\<close>.
\<close>

fun session_action :: "GameAction \<Rightarrow> bool" where
  "session_action (INIT_GAME _) = False"
| "session_action (LOAD_GAME _) = False"
| "session_action (UPDATE_STATE _) = False"
| "session_action _ = True"

inductive step :: "GameState \<Rightarrow> GameState \<Rightarrow> bool" where
  dispatch: "session_action a \<Longrightarrow> gameReducer now s a = Inr s' \<Longrightarrow> step s s'"
| ai_turn: "executeAITurn s config g t = Inr us \<Longrightarrow> u \<in> set us
            \<Longrightarrow> gameReducer now s (UPDATE_STATE (whole u)) = Inr s' \<Longrightarrow> step s s'"

inductive reachable :: "GameState \<Rightarrow> bool" where
  init: "reachable (initializeGame config t0 t1)"
| next_state: "reachable s \<Longrightarrow> step s s' \<Longrightarrow> reachable s'"

text \<open>Dispatching a list of actions in order; a throw ends the run.\<close>

fun run :: "int \<times> int \<Rightarrow> GameState \<Rightarrow> GameAction list \<Rightarrow> error + GameState" where
  "run now s [] = Inr s"
| "run now s (a # as) =
     (case gameReducer now s a of Inl e \<Rightarrow> Inl e | Inr s' \<Rightarrow> run now s' as)"

text \<open>
  One human turn as \<open>GameContext\<close> dispatches it: spin, the spinner result arming the
  human, the chosen target, shoot, the shot result and the hand-over to the next turn.
\<close>

definition human_turn :: "real \<Rightarrow> string \<Rightarrow> bool \<Rightarrow> GameAction list" where
  "human_turn rotation targetId isHit =
     [SPIN_REVOLVER, SET_SPINNER_RESULT rotation ''player-0'', SELECT_TARGET targetId,
      SHOOT, SHOT_RESULT isHit, NEXT_TURN]"

text \<open>
  Predicates on the list of actors: \<open>hit_on ps ps'\<close> says that \<open>ps'\<close> is \<open>ps\<close> after at most
  one \<open>applyDamage\<close>; \<open>dead_inv\<close> that every not-alive actor has no health left;
  \<open>health_inv\<close> that every health is an integer from \<open>0\<close> to below \<open>2^53\<close> (where
  subtracting one is exact) and that the alive flag is \<open>health > 0\<close>.
\<close>

definition hit_on :: "Player list \<Rightarrow> Player list \<Rightarrow> bool" where
  "hit_on ps ps' = (ps' = ps \<or> (\<exists>i < length ps. ps' = ps[i := applyDamage (ps ! i)]))"

definition dead_inv :: "Player list \<Rightarrow> bool" where
  "dead_inv ps = (\<forall>p \<in> set ps. \<not> isAlive p \<longrightarrow> health p \<le> 0)"

definition health_inv :: "Player list \<Rightarrow> bool" where
  "health_inv ps =
     (\<forall>p \<in> set ps. health p = of_int \<lfloor>health p\<rfloor> \<and> 0 \<le> health p \<and> health p < 2 ^ 53
                     \<and> (isAlive p \<longleftrightarrow> 0 < health p))"

section \<open>Rounding to a double\<close>

lemma round_even_of_int: "round_even (of_int z) = z"
  by (simp add: round_even_def)

lemma round_even_le: "q \<le> of_int z \<Longrightarrow> round_even q \<le> z"
proof -
  assume q: "q \<le> of_int z"
  then have f: "\<lfloor>q\<rfloor> \<le> z" by (simp add: floor_le_iff)
  show ?thesis
  proof (cases "\<lfloor>q\<rfloor> = z")
    case True
    then have "of_int z \<le> q" by (metis of_int_floor_le)
    with q have "q = of_int z" by simp
    then show ?thesis by (simp add: round_even_of_int)
  next
    case False
    with f have "\<lfloor>q\<rfloor> + 1 \<le> z" by simp
    then show ?thesis by (auto simp: round_even_def Let_def)
  qed
qed

lemma round_even_ge: "of_int z \<le> q \<Longrightarrow> z \<le> round_even q"
proof -
  assume "of_int z \<le> q"
  then have "z \<le> \<lfloor>q\<rfloor>" by (simp add: le_floor_iff)
  then show ?thesis by (auto simp: round_even_def Let_def)
qed


lemma binade_bounds:
  assumes "x \<noteq> 0"
  shows "2 powi binade x \<le> \<bar>x\<bar> \<and> \<bar>x\<bar> < 2 powi (binade x + 1)"
proof (cases "1 \<le> \<bar>x\<bar>")
  case True
  let ?n = "\<lfloor>\<bar>x\<bar>\<rfloor>"
  from True have n: "0 < ?n" by simp
  from bitlen_bounds[OF n] have lo: "2 ^ nat (bitlen ?n - 1) \<le> ?n" and hi: "?n < 2 ^ nat (bitlen ?n)"
    by simp_all
  from n have bl: "1 \<le> bitlen ?n" using bitlen_eq_zero_iff[of ?n] bitlen_nonneg[of ?n] by arith
  have b: "binade x = bitlen ?n - 1" using True by (simp add: binade_def)
  have "(2::real) powi (bitlen ?n - 1) = 2 ^ nat (bitlen ?n - 1)"
    using bl by (simp add: power_int_nonneg_exp)
  also have "\<dots> = of_int (2 ^ nat (bitlen ?n - 1))" by simp
  also have "\<dots> \<le> of_int ?n" using lo by (simp only: of_int_le_iff)
  also have "\<dots> \<le> \<bar>x\<bar>" by simp
  finally have 1: "2 powi binade x \<le> \<bar>x\<bar>" by (simp add: b)
  from hi have "?n + 1 \<le> 2 ^ nat (bitlen ?n)" by simp
  then have "of_int (?n + 1) \<le> (of_int (2 ^ nat (bitlen ?n)) :: real)"
    by (simp only: of_int_le_iff)
  then have "of_int ?n + 1 \<le> (2 ^ nat (bitlen ?n) :: real)" by simp
  moreover have "\<bar>x\<bar> < of_int ?n + 1" by linarith
  ultimately have "\<bar>x\<bar> < 2 ^ nat (bitlen ?n)" by linarith
  also have "\<dots> = 2 powi (bitlen ?n)" using bl by (simp add: power_int_nonneg_exp)
  finally have 2: "\<bar>x\<bar> < 2 powi (binade x + 1)" by (simp add: b)
  from 1 2 show ?thesis ..
next
  case False
  with assms have x: "0 < \<bar>x\<bar>" "\<bar>x\<bar> < 1" by simp_all
  let ?c = "\<lceil>1 / \<bar>x\<bar>\<rceil>"
  let ?m = "bitlen (?c - 1)"
  from x have "1 < 1 / \<bar>x\<bar>" by simp
  then have c: "1 < ?c" by (simp add: less_ceiling_iff)
  then have c1: "0 < ?c - 1" by simp
  from bitlen_bounds[OF c1] have lo: "2 ^ nat (?m - 1) \<le> ?c - 1" and hi: "?c - 1 < 2 ^ nat ?m"
    by simp_all
  from c1 have m: "1 \<le> ?m" using bitlen_eq_zero_iff[of "?c - 1"] bitlen_nonneg[of "?c - 1"] by arith
  have b: "binade x = - ?m" using False by (simp add: binade_def)
  from hi have "?c \<le> 2 ^ nat ?m" by simp
  then have "1 / \<bar>x\<bar> \<le> of_int (2 ^ nat ?m)" by (simp only: ceiling_le_iff)
  then have "1 / \<bar>x\<bar> \<le> 2 ^ nat ?m" by simp
  then have "1 \<le> 2 ^ nat ?m * \<bar>x\<bar>" using x by (simp add: field_simps)
  then have "1 / 2 ^ nat ?m \<le> \<bar>x\<bar>" by (simp add: field_simps)
  moreover have "(2::real) powi (- ?m) = 1 / 2 ^ nat ?m"
    using m by (simp add: power_int_minus power_int_nonneg_exp field_simps)
  ultimately have 1: "2 powi binade x \<le> \<bar>x\<bar>" by (simp add: b)
  from lo have "2 ^ nat (?m - 1) < ?c" by simp
  then have "of_int (2 ^ nat (?m - 1)) < 1 / \<bar>x\<bar>" by (simp only: less_ceiling_iff)
  then have "2 ^ nat (?m - 1) < 1 / \<bar>x\<bar>" by simp
  then have "2 ^ nat (?m - 1) * \<bar>x\<bar> < 1" using x by (simp add: field_simps)
  then have "\<bar>x\<bar> < 1 / 2 ^ nat (?m - 1)" by (simp add: field_simps)
  moreover have "(2::real) powi (- ?m + 1) = 1 / 2 ^ nat (?m - 1)"
  proof -
    have "(2::real) powi (- ?m + 1) = 2 powi (- (?m - 1))" by simp
    also have "\<dots> = 1 / 2 powi (?m - 1)" by (simp only: power_int_minus_divide)
    also have "\<dots> = 1 / 2 ^ nat (?m - 1)" using m by (simp add: power_int_nonneg_exp)
    finally show ?thesis .
  qed
  ultimately have 2: "\<bar>x\<bar> < 2 powi (binade x + 1)" by (simp add: b)
  from 1 2 show ?thesis ..
qed

lemma binade_unique:
  assumes "2 powi e \<le> \<bar>x\<bar>" "\<bar>x\<bar> < 2 powi (e + 1)"
  shows "binade x = e"
proof -
  have "(0::real) < 2 powi e" by simp
  with assms(1) have "0 < \<bar>x\<bar>" by linarith
  then have x: "x \<noteq> 0" by auto
  from binade_bounds[OF x] have lo: "2 powi binade x \<le> \<bar>x\<bar>" and hi: "\<bar>x\<bar> < 2 powi (binade x + 1)"
    by simp_all
  have "binade x < e + 1"
  proof (rule ccontr)
    assume "\<not> binade x < e + 1"
    then have "(2::real) powi (e + 1) \<le> 2 powi binade x"
      by (intro power_int_increasing) simp_all
    with lo assms(2) show False by simp
  qed
  moreover have "e < binade x + 1"
  proof (rule ccontr)
    assume "\<not> e < binade x + 1"
    then have "(2::real) powi (binade x + 1) \<le> 2 powi e"
      by (intro power_int_increasing) simp_all
    with hi assms(1) show False by simp
  qed
  ultimately show ?thesis by simp
qed

lemma ulp64_pos: "0 < ulp64 x"
  by (simp add: ulp64_def)

lemma binade_le_52:
  assumes "x \<noteq> 0" "\<bar>x\<bar> < 2 ^ 53"
  shows "binade x \<le> 52"
proof (rule ccontr)
  assume "\<not> binade x \<le> 52"
  then have "53 \<le> binade x" by simp
  then have "(2::real) powi 53 \<le> 2 powi binade x"
    by (intro power_int_increasing) simp_all
  moreover from binade_bounds[OF assms(1)] have "2 powi binade x \<le> \<bar>x\<bar>" by simp
  ultimately show False using assms(2) by simp
qed

lemma ulp64_inverse_power:
  assumes "x \<noteq> 0" "\<bar>x\<bar> < 2 ^ 53"
  shows "ulp64 x = 1 / 2 ^ nat (52 - max (binade x) (- 1022))"
proof -
  let ?e = "max (binade x) (- 1022)"
  from binade_le_52[OF assms] have e: "?e \<le> 52" by simp
  have "ulp64 x = 2 powi (- (52 - ?e))" by (simp add: ulp64_def)
  also have "\<dots> = 1 / 2 powi (52 - ?e)" by (simp only: power_int_minus_divide)
  also have "\<dots> = 1 / 2 ^ nat (52 - ?e)" using e by (simp add: power_int_nonneg_exp)
  finally show ?thesis .
qed

lemma fl64_le_int:
  assumes "\<bar>x\<bar> < 2 ^ 53" "x \<le> of_int z"
  shows "fl64 x \<le> of_int z"
proof (cases "x = 0")
  case True
  with assms(2) show ?thesis by (simp add: fl64_def)
next
  case False
  let ?k = "nat (52 - max (binade x) (- 1022))"
  from ulp64_inverse_power[OF False assms(1)] have u: "ulp64 x = 1 / 2 ^ ?k" .
  have "x / ulp64 x = x * 2 ^ ?k" by (simp add: u)
  also have "\<dots> \<le> of_int z * 2 ^ ?k" using assms(2) by simp
  also have "\<dots> = of_int (z * 2 ^ ?k)" by simp
  finally have "round_even (x / ulp64 x) \<le> z * 2 ^ ?k" by (rule round_even_le)
  then have "(of_int (round_even (x / ulp64 x)) :: real) \<le> of_int (z * 2 ^ ?k)"
    by (simp only: of_int_le_iff)
  then have "of_int (round_even (x / ulp64 x)) * ulp64 x \<le> of_int (z * 2 ^ ?k) * ulp64 x"
    using ulp64_pos[of x] by (simp only: mult_le_cancel_right_pos)
  also have "of_int (z * 2 ^ ?k) * ulp64 x = of_int z" by (simp add: u)
  finally show ?thesis using False by (simp add: fl64_def)
qed

lemma fl64_ge_int:
  assumes "\<bar>x\<bar> < 2 ^ 53" "of_int z \<le> x"
  shows "of_int z \<le> fl64 x"
proof (cases "x = 0")
  case True
  with assms(2) show ?thesis by (simp add: fl64_def)
next
  case False
  let ?k = "nat (52 - max (binade x) (- 1022))"
  from ulp64_inverse_power[OF False assms(1)] have u: "ulp64 x = 1 / 2 ^ ?k" .
  have "of_int (z * 2 ^ ?k) = of_int z * (2 ^ ?k :: real)" by simp
  also have "\<dots> \<le> x * 2 ^ ?k" using assms(2) by simp
  also have "\<dots> = x / ulp64 x" by (simp add: u)
  finally have "z * 2 ^ ?k \<le> round_even (x / ulp64 x)" by (rule round_even_ge)
  then have "(of_int (z * 2 ^ ?k) :: real) \<le> of_int (round_even (x / ulp64 x))"
    by (simp only: of_int_le_iff)
  then have "of_int (z * 2 ^ ?k) * ulp64 x \<le> of_int (round_even (x / ulp64 x)) * ulp64 x"
    using ulp64_pos[of x] by (simp only: mult_le_cancel_right_pos)
  moreover have "of_int (z * 2 ^ ?k) * ulp64 x = of_int z" by (simp add: u)
  ultimately have "of_int z \<le> of_int (round_even (x / ulp64 x)) * ulp64 x" by (simp only:)
  then show ?thesis using False by (simp add: fl64_def)
qed

lemma fl64_of_int:
  assumes "\<bar>z\<bar> < 2 ^ 53"
  shows "fl64 (of_int z) = of_int z"
proof -
  from assms have "\<bar>of_int z :: real\<bar> < of_int (2 ^ 53)"
    by (simp only: of_int_abs[symmetric] of_int_less_iff)
  then have a: "\<bar>of_int z :: real\<bar> < 2 ^ 53" by simp
  from fl64_le_int[OF a, of z] fl64_ge_int[OF a, of z] show ?thesis by simp
qed

lemma fl64_nonpos: "x \<le> 0 \<Longrightarrow> fl64 x \<le> 0"
proof -
  assume x: "x \<le> 0"
  then have "x / ulp64 x \<le> of_int 0" using ulp64_pos[of x] by (simp add: divide_le_0_iff)
  then have "round_even (x / ulp64 x) \<le> 0" by (rule round_even_le)
  then have "of_int (round_even (x / ulp64 x)) * ulp64 x \<le> 0"
    using ulp64_pos[of x] by (simp add: mult_le_0_iff)
  then show ?thesis by (simp add: fl64_def)
qed


lemma fl64_numerals [simp]:
  "fl64 0 = 0" "fl64 1 = 1" "fl64 (- 1) = - 1"
  "numeral k < (2 ^ 53 :: int) \<Longrightarrow> fl64 (numeral k) = numeral k"
  "numeral k < (2 ^ 53 :: int) \<Longrightarrow> fl64 (- numeral k) = - numeral k"
  using fl64_of_int[of 0] fl64_of_int[of 1] fl64_of_int[of "- 1"]
    fl64_of_int[of "numeral k"] fl64_of_int[of "- numeral k"]
  by simp_all



lemma fl64_normal:
  assumes "2 powi e \<le> \<bar>x\<bar>" "\<bar>x\<bar> < 2 powi (e + 1)" "- 1022 \<le> e"
  shows "fl64 x = of_int (round_even (x / 2 powi (e - 52))) * 2 powi (e - 52)"
proof -
  have "(0::real) < 2 powi e" by simp
  with assms(1) have "0 < \<bar>x\<bar>" by linarith
  then have x: "x \<noteq> 0" by auto
  from binade_unique[OF assms(1,2)] assms(3) have "ulp64 x = 2 powi (e - 52)"
    by (simp add: ulp64_def)
  with x show ?thesis by (simp add: fl64_def)
qed

lemma fl64_pow53: "fl64 (2 ^ 53) = 2 ^ 53" "fl64 (- (2 ^ 53)) = - (2 ^ 53)"
proof -
  have "fl64 (2 ^ 53) = of_int (round_even (2 ^ 53 / 2 powi (53 - 52))) * 2 powi (53 - 52)"
    by (rule fl64_normal) simp_all
  then show "fl64 (2 ^ 53) = 2 ^ 53" by (simp add: round_even_def)
  have "fl64 (- (2 ^ 53))
          = of_int (round_even (- (2 ^ 53) / 2 powi (53 - 52))) * 2 powi (53 - 52)"
    by (rule fl64_normal) simp_all
  then show "fl64 (- (2 ^ 53)) = - (2 ^ 53)" by (simp add: round_even_def)
qed

lemma fl64_of_int_le:
  assumes "\<bar>z\<bar> \<le> 2 ^ 53"
  shows "fl64 (of_int z) = of_int z"
proof -
  from assms consider "\<bar>z\<bar> < 2 ^ 53" | "z = 2 ^ 53" | "z = - (2 ^ 53)" by linarith
  then show ?thesis
  proof cases
    case 1
    then show ?thesis by (rule fl64_of_int)
  next
    case 2
    then show ?thesis using fl64_pow53(1) by simp
  next
    case 3
    then show ?thesis using fl64_pow53(2) by simp
  qed
qed


lemma applyDamage_sel:
  "health (applyDamage p) = fl64 (health p - 1)"
  "isAlive (applyDamage p) = (0 < fl64 (health p - 1))"
  "id_player (applyDamage p) = id_player p"
  "type_player (applyDamage p) = type_player p"
  by (simp_all add: applyDamage_def Let_def)

section \<open>Initialisation\<close>

lemma initializeGame_fields:
  "currentShooter (initializeGame config t0 t1) = None"
  "selectedTarget (initializeGame config t0 t1) = None"
  "phase (initializeGame config t0 t1) = SETUP"
  "revolverRotation (initializeGame config t0 t1) = 0"
  "aiMemories (initializeGame config t0 t1) = Map.empty"
  "turnHistory (initializeGame config t0 t1) = []"
  "gameStartTime (initializeGame config t0 t1) = t0"
  "lastSaveTime (initializeGame config t0 t1) = t1"
  by (simp_all add: initializeGame_def)

lemma initializeGame_players:
  "players (initializeGame config t0 t1) =
     [\<lparr> id_player = ''player-0'', name = ''You'', type_player = HUMAN,
        health = startingHealth config, isAlive = True, position = 0,
        avatar = PLAYER_AVATARS ! 0 \<rparr>,
      \<lparr> id_player = ''ai-1'', name = ''Viktor'', type_player = AI,
        health = startingHealth config, isAlive = True, position = 1,
        avatar = PLAYER_AVATARS ! 1 \<rparr>,
      \<lparr> id_player = ''ai-2'', name = ''Natasha'', type_player = AI,
        health = startingHealth config, isAlive = True, position = 2,
        avatar = PLAYER_AVATARS ! 2 \<rparr>,
      \<lparr> id_player = ''ai-3'', name = ''Boris'', type_player = AI,
        health = startingHealth config, isAlive = True, position = 3,
        avatar = PLAYER_AVATARS ! 3 \<rparr>,
      \<lparr> id_player = ''ai-4'', name = ''Svetlana'', type_player = AI,
        health = startingHealth config, isAlive = True, position = 4,
        avatar = PLAYER_AVATARS ! 4 \<rparr>]"
  by (simp add: initializeGame_def AI_NAMES_def PLAYER_AVATARS_def string_of_nat.simps)

text \<open>
  Claim C10.  For every configuration (whatever its \<open>playerCount\<close>) and every clock
  reading, \<open>initializeGame\<close> returns exactly five actors: the human \<open>player-0\<close> at position 0
  and the autonomous actors \<open>ai-1\<close> .. \<open>ai-4\<close> at positions 1 .. 4, each alive with health
  \<open>startingHealth\<close>; the phase is Setup, nobody is armed or selected, the turn history and
  the grudge memory are empty.
\<close>

theorem C10_initializeGame_five_actors:
  "length (players (initializeGame config t0 t1)) = 5
   \<and> map id_player (players (initializeGame config t0 t1))
       = [''player-0'', ''ai-1'', ''ai-2'', ''ai-3'', ''ai-4'']
   \<and> map type_player (players (initializeGame config t0 t1)) = [HUMAN, AI, AI, AI, AI]
   \<and> map position (players (initializeGame config t0 t1)) = [0, 1, 2, 3, 4]
   \<and> map isAlive (players (initializeGame config t0 t1)) = replicate 5 True
   \<and> map health (players (initializeGame config t0 t1)) = replicate 5 (startingHealth config)
   \<and> phase (initializeGame config t0 t1) = SETUP
   \<and> currentShooter (initializeGame config t0 t1) = None
   \<and> selectedTarget (initializeGame config t0 t1) = None
   \<and> turnHistory (initializeGame config t0 t1) = []
   \<and> aiMemories (initializeGame config t0 t1) = Map.empty
   \<and> initializeGame (config\<lparr>playerCount := n\<rparr>) t0 t1 = initializeGame config t0 t1"
proof -
  have rest: "phase (initializeGame config t0 t1) = SETUP
      \<and> currentShooter (initializeGame config t0 t1) = None
      \<and> selectedTarget (initializeGame config t0 t1) = None
      \<and> turnHistory (initializeGame config t0 t1) = []
      \<and> aiMemories (initializeGame config t0 t1) = Map.empty"
    by (simp add: initializeGame_def)
  have indep: "initializeGame (config\<lparr>playerCount := n\<rparr>) t0 t1 = initializeGame config t0 t1"
    by (simp add: initializeGame_def)
  show ?thesis
    using rest indep by (simp add: initializeGame_players numeral_eq_Suc)
qed

section \<open>Win detection\<close>

text \<open>
  Claim C7.  For every list of actors, \<open>checkGameOver\<close> reports the game as over with the
  unique alive actor as winner when exactly one actor is alive, over with no winner when
  none is alive, and not over (no winner) when two or more are alive.
\<close>

theorem C7_checkGameOver:
  "(length (filter isAlive ps) = 1 \<longrightarrow>
      isOver (checkGameOver ps)
      \<and> (\<exists>w. winner (checkGameOver ps) = Some w \<and> w \<in> set ps \<and> isAlive w
              \<and> filter isAlive ps = [w]))
   \<and> (length (filter isAlive ps) = 0 \<longrightarrow>
        isOver (checkGameOver ps) \<and> winner (checkGameOver ps) = None)
   \<and> (2 \<le> length (filter isAlive ps) \<longrightarrow>
        \<not> isOver (checkGameOver ps) \<and> winner (checkGameOver ps) = None)"
proof -
  have one: "isOver (checkGameOver ps)
      \<and> (\<exists>w. winner (checkGameOver ps) = Some w \<and> w \<in> set ps \<and> isAlive w
              \<and> filter isAlive ps = [w])"
    if h: "length (filter isAlive ps) = 1"
  proof -
    from h obtain w where w: "filter isAlive ps = [w]"
      by (cases "filter isAlive ps") auto
    then have "w \<in> set (filter isAlive ps)" by simp
    then have "w \<in> set ps" "isAlive w" by auto
    with w show ?thesis by (simp add: checkGameOver_def)
  qed
  have zero: "isOver (checkGameOver ps) \<and> winner (checkGameOver ps) = None"
    if "length (filter isAlive ps) = 0"
    using that by (simp add: checkGameOver_def)
  have many: "\<not> isOver (checkGameOver ps) \<and> winner (checkGameOver ps) = None"
    if "2 \<le> length (filter isAlive ps)"
  proof -
    from that have "length (filter isAlive ps) \<noteq> 1" by simp
    moreover from that have "filter isAlive ps \<noteq> []" by auto
    ultimately show ?thesis by (simp add: checkGameOver_def Let_def)
  qed
  from one zero many show ?thesis by blast
qed

text \<open>
  With starting health 1: the human alive and the four others damaged once (one alive),
  everybody damaged once (none alive), and the initial five (more than one alive).
\<close>

theorem C7_checkGameOver_witness:
  "length (filter isAlive
      (hd (players (initializeGame (GAME_CONFIG\<lparr>startingHealth := 1\<rparr>) 0 0))
       # map applyDamage (tl (players (initializeGame (GAME_CONFIG\<lparr>startingHealth := 1\<rparr>) 0 0))))) = 1
   \<and> isOver (checkGameOver
      (hd (players (initializeGame (GAME_CONFIG\<lparr>startingHealth := 1\<rparr>) 0 0))
       # map applyDamage (tl (players (initializeGame (GAME_CONFIG\<lparr>startingHealth := 1\<rparr>) 0 0)))))
   \<and> map_option id_player (winner (checkGameOver
      (hd (players (initializeGame (GAME_CONFIG\<lparr>startingHealth := 1\<rparr>) 0 0))
       # map applyDamage (tl (players (initializeGame (GAME_CONFIG\<lparr>startingHealth := 1\<rparr>) 0 0))))))
       = Some ''player-0''
   \<and> length (filter isAlive
        (map applyDamage (players (initializeGame (GAME_CONFIG\<lparr>startingHealth := 1\<rparr>) 0 0)))) = 0
   \<and> isOver (checkGameOver
        (map applyDamage (players (initializeGame (GAME_CONFIG\<lparr>startingHealth := 1\<rparr>) 0 0))))
   \<and> winner (checkGameOver
        (map applyDamage (players (initializeGame (GAME_CONFIG\<lparr>startingHealth := 1\<rparr>) 0 0)))) = None
   \<and> 2 \<le> length (filter isAlive (players (initializeGame GAME_CONFIG 0 0)))
   \<and> \<not> isOver (checkGameOver (players (initializeGame GAME_CONFIG 0 0)))"
  using
    C7_checkGameOver [of "hd (players (initializeGame (GAME_CONFIG\<lparr>startingHealth := 1\<rparr>) 0 0))
       # map applyDamage (tl (players (initializeGame (GAME_CONFIG\<lparr>startingHealth := 1\<rparr>) 0 0)))"]
    C7_checkGameOver [of "map applyDamage (players (initializeGame (GAME_CONFIG\<lparr>startingHealth := 1\<rparr>) 0 0))"]
    C7_checkGameOver [of "players (initializeGame GAME_CONFIG 0 0)"]
  by (simp add: initializeGame_players GAME_CONFIG_def applyDamage_def)

section \<open>Grudge memory\<close>

lemma count_list_distinct_member:
  "distinct xs \<Longrightarrow> x \<in> set xs \<Longrightarrow> count_list xs x = 1"
  by (induction xs) auto

lemma updateMemory_other: "k \<noteq> v \<Longrightarrow> updateMemory m v s b k = m k"
  by (simp add: updateMemory_def Let_def)

lemma grudgeList_updateMemory_same:
  "grudgeList (updateMemory m v s b) v =
     (if b \<and> startsWith v ''ai-'' \<and> s \<notin> set (grudgeList m v)
      then grudgeList m v @ [s] else grudgeList m v)"
  by (auto simp: updateMemory_def grudgeList_def Let_def split: option.splits)

lemma grudgeList_updateMemory_other:
  "k \<noteq> v \<Longrightarrow> grudgeList (updateMemory m v s b) k = grudgeList m k"
  by (simp add: grudgeList_def updateMemory_other)

lemma updateMemory_idem:
  "updateMemory (updateMemory m v s b) v s b = updateMemory m v s b"
  by (auto simp: updateMemory_def Let_def split: option.splits)

lemma grudgeList_mono:
  "set (grudgeList m k) \<subseteq> set (grudgeList (updateMemory m v s b) k)"
  by (cases "k = v") (auto simp: grudgeList_updateMemory_same grudgeList_updateMemory_other)

lemma dom_updateMemory: "dom m \<subseteq> dom (updateMemory m v s b)"
  by (auto simp: updateMemory_def Let_def)

text \<open>
  Claim C9.  Inserting a shooter into a victim's grudge list is idempotent: the second
  insertion changes nothing, and a list without duplicates keeps exactly one entry for the
  shooter.  The update never removes a key of the memory nor an entry of any grudge list,
  and it touches only the entry stored under the victim's id (every other key, the
  shooter's included, is left as it was).
\<close>

theorem C9_updateMemory:
  "updateMemory (updateMemory m v s True) v s True = updateMemory m v s True
   \<and> (startsWith v ''ai-'' \<longrightarrow> s \<in> set (grudgeList (updateMemory m v s True) v))
   \<and> (startsWith v ''ai-'' \<and> distinct (grudgeList m v) \<longrightarrow>
        distinct (grudgeList (updateMemory (updateMemory m v s True) v s True) v)
        \<and> count_list (grudgeList (updateMemory (updateMemory m v s True) v s True) v) s = 1)
   \<and> dom m \<subseteq> dom (updateMemory m v s b)
   \<and> set (grudgeList m k) \<subseteq> set (grudgeList (updateMemory m v s b) k)
   \<and> (k \<noteq> v \<longrightarrow> updateMemory m v s b k = m k)"
proof -
  have one: "distinct (grudgeList (updateMemory (updateMemory m v s True) v s True) v)
        \<and> count_list (grudgeList (updateMemory (updateMemory m v s True) v s True) v) s = 1"
    if "startsWith v ''ai-''" "distinct (grudgeList m v)"
    using that
    by (auto simp: updateMemory_idem grudgeList_updateMemory_same count_list_distinct_member)
  have ins: "s \<in> set (grudgeList (updateMemory m v s True) v)" if "startsWith v ''ai-''"
    using that by (simp add: grudgeList_updateMemory_same)
  show ?thesis
    using one ins updateMemory_idem[of m v s True] dom_updateMemory[of m v s b]
      grudgeList_mono[of m k v s b] updateMemory_other[of k v m s b]
    by blast
qed


text \<open>
  The human's blank on \<open>ai-1\<close>, recorded twice into the empty memory: one entry, stored
  under \<open>ai-1\<close>, nothing under \<open>player-0\<close>.
\<close>

theorem C9_updateMemory_witness:
  "startsWith ''ai-1'' ''ai-''
   \<and> distinct (grudgeList Map.empty ''ai-1'')
   \<and> grudgeList (updateMemory Map.empty ''ai-1'' ''player-0'' True) ''ai-1'' = [''player-0'']
   \<and> count_list (grudgeList (updateMemory (updateMemory Map.empty ''ai-1'' ''player-0'' True)
         ''ai-1'' ''player-0'' True) ''ai-1'') ''player-0'' = 1
   \<and> ''player-0'' \<noteq> ''ai-1''
   \<and> updateMemory Map.empty ''ai-1'' ''player-0'' True ''player-0'' = None"
  using C9_updateMemory [where m = Map.empty and v = "''ai-1''" and s = "''player-0''"
      and k = "''player-0''" and b = True]
  by (simp add: startsWith_def grudgeList_def updateMemory_def)

section \<open>Commands and phases\<close>

text \<open>
  The reducer has no phase check: \<open>SHOOT\<close> dispatched in phase Setup is accepted, returns
  no error and moves the state to phase Shooting.
\<close>

theorem C1_counterexample:
  "phase (initializeGame GAME_CONFIG 0 0) = SETUP
   \<and> gameReducer (0, 0) (initializeGame GAME_CONFIG 0 0) SHOOT
       = Inr ((initializeGame GAME_CONFIG 0 0)\<lparr> phase := SHOOTING \<rparr>)
   \<and> (initializeGame GAME_CONFIG 0 0)\<lparr> phase := SHOOTING \<rparr> \<noteq> initializeGame GAME_CONFIG 0 0"
proof -
  have "phase ((initializeGame GAME_CONFIG 0 0)\<lparr> phase := SHOOTING \<rparr>)
        \<noteq> phase (initializeGame GAME_CONFIG 0 0)"
    by (simp add: initializeGame_def)
  then have "(initializeGame GAME_CONFIG 0 0)\<lparr> phase := SHOOTING \<rparr> \<noteq> initializeGame GAME_CONFIG 0 0"
    by metis
  then show ?thesis by (simp add: initializeGame_def)
qed

text \<open>
  Claim C1, as the code has it.  In every state, whatever its phase, the reducer accepts
  spin, select-target and shoot without an error: spin sets the phase to Spinning, shoot
  sets it to Shooting, select-target stores the given id, and nothing else in the state
  changes.  The state comes back unchanged exactly when the field already had that value.
\<close>

theorem C1_reducer_accepts_in_every_phase:
  "(\<exists>s'. gameReducer now s SPIN_REVOLVER = Inr s' \<and> phase s' = SPINNING
          \<and> s'\<lparr> phase := phase s \<rparr> = s)
   \<and> (\<exists>s'. gameReducer now s (SELECT_TARGET t) = Inr s' \<and> selectedTarget s' = Some t
          \<and> s'\<lparr> selectedTarget := selectedTarget s \<rparr> = s)
   \<and> (\<exists>s'. gameReducer now s SHOOT = Inr s' \<and> phase s' = SHOOTING
          \<and> s'\<lparr> phase := phase s \<rparr> = s)
   \<and> (gameReducer now s SPIN_REVOLVER = Inr s \<longleftrightarrow> phase s = SPINNING)
   \<and> (gameReducer now s (SELECT_TARGET t) = Inr s \<longleftrightarrow> selectedTarget s = Some t)
   \<and> (gameReducer now s SHOOT = Inr s \<longleftrightarrow> phase s = SHOOTING)"
proof -
  have a: "s\<lparr> phase := p \<rparr> = s \<longleftrightarrow> phase s = p" for p
    by (cases s) auto
  have b: "s\<lparr> selectedTarget := x \<rparr> = s \<longleftrightarrow> selectedTarget s = x" for x
    by (cases s) auto
  show ?thesis by (simp add: a b)
qed

text \<open>
  In the initial state (phase Setup, no target) each of the three commands changes the
  state.
\<close>

theorem C1_reducer_accepts_in_every_phase_witness:
  "phase (initializeGame GAME_CONFIG 0 0) \<noteq> SHOOTING
   \<and> gameReducer (0, 0) (initializeGame GAME_CONFIG 0 0) SHOOT \<noteq> Inr (initializeGame GAME_CONFIG 0 0)
   \<and> phase (initializeGame GAME_CONFIG 0 0) \<noteq> SPINNING
   \<and> gameReducer (0, 0) (initializeGame GAME_CONFIG 0 0) SPIN_REVOLVER
       \<noteq> Inr (initializeGame GAME_CONFIG 0 0)
   \<and> selectedTarget (initializeGame GAME_CONFIG 0 0) \<noteq> Some ''ai-1''
   \<and> gameReducer (0, 0) (initializeGame GAME_CONFIG 0 0) (SELECT_TARGET ''ai-1'')
       \<noteq> Inr (initializeGame GAME_CONFIG 0 0)"
proof -
  have "phase (initializeGame GAME_CONFIG 0 0) = SETUP"
    "selectedTarget (initializeGame GAME_CONFIG 0 0) = None"
    by (simp_all add: initializeGame_def)
  then show ?thesis
    using C1_reducer_accepts_in_every_phase
      [of "(0, 0)" "initializeGame GAME_CONFIG 0 0" "''ai-1''"]
    by simp
qed

section \<open>Random draws\<close>






section \<open>The armed-actor draw\<close>




section \<open>Shot resolution\<close>

text \<open>
  The outcome of a shot does not follow the configured \<open>blankProbability\<close>: in an
  autonomous turn run under a configuration that says "always blank" the draw \<open>3/4\<close> is
  a hit, and under one that says "never blank" the draw \<open>1/4\<close> is a blank.
\<close>

theorem C2_counterexample:
  "blankProbability (GAME_CONFIG\<lparr> blankProbability := 1 \<rparr>) = 1
   \<and> map_sum id (map (\<lambda>u. map wasBlank (turnHistory u)))
        (executeAITurn
           ((initializeGame (GAME_CONFIG\<lparr> blankProbability := 1 \<rparr>) 0 0)
              \<lparr> currentShooter := Some ''ai-1'' \<rparr>)
           (GAME_CONFIG\<lparr> blankProbability := 1 \<rparr>) (sconst (3/4)) 0)
       = Inr [[], [False], [False]]
   \<and> blankProbability (GAME_CONFIG\<lparr> blankProbability := 0 \<rparr>) = 0
   \<and> map_sum id (map (\<lambda>u. map wasBlank (turnHistory u)))
        (executeAITurn
           ((initializeGame (GAME_CONFIG\<lparr> blankProbability := 0 \<rparr>) 0 0)
              \<lparr> currentShooter := Some ''ai-1'' \<rparr>)
           (GAME_CONFIG\<lparr> blankProbability := 0 \<rparr>) (sconst (1/4)) 0)
       = Inr [[], [True], [True]]"
  by (simp add: executeAITurn_def decideTarget_def decide_human_def decide_lowest_ai_def
        decide_fallback_def attemptShot_def recordTurn_def initializeGame_players
        initializeGame_fields
        GAME_CONFIG_def js_index_def applyDamage_def updateMemory_def startsWith_def
        checkGameOver_def Let_def)

lemma decideTarget_ignores_config:
  "decideTarget sh ps mem config g = decideTarget sh ps mem config' g"
  by (simp add: decideTarget_def)

lemma executeAITurn_ignores_config:
  "executeAITurn s config g now = executeAITurn s config' g now"
  unfolding executeAITurn_def decideTarget_ignores_config [of _ _ _ config _ config'] ..

text \<open>
  Claim C2, as the code has it.  \<open>attemptShot\<close> takes exactly one draw \<open>r\<close> and reports a
  hit iff \<open>r > 1/2\<close>; the blank draws are those of \<open>[0, 1/2]\<close>, a fixed half of the unit
  interval, and the configuration's \<open>blankProbability\<close> changes nothing in a turn.
\<close>

theorem C2_attemptShot_fixed_half:
  "snd (attemptShot g) = stl g
   \<and> (\<not> fst (attemptShot g)) = (shd g \<le> 1/2)
   \<and> {r. 0 \<le> r \<and> r < 1 \<and> \<not> fst (attemptShot (r ## g))} = {0 .. 1/2}
   \<and> executeAITurn s (config\<lparr> blankProbability := p \<rparr>) g now = executeAITurn s config g now"
proof -
  have "{r. 0 \<le> r \<and> r < 1 \<and> \<not> fst (attemptShot (r ## g))} = {0 .. 1/2}"
    by (auto simp: attemptShot_def)
  then show ?thesis
    using executeAITurn_ignores_config [of s "config\<lparr> blankProbability := p \<rparr>" g now config]
    by (simp add: attemptShot_def not_less)
qed

text \<open>
  The draw \<open>1/2\<close> is a blank, and a turn under "always blank" equals the turn under the
  default configuration.
\<close>

theorem C2_attemptShot_fixed_half_witness:
  "snd (attemptShot ((1/2::real) ## sconst 0)) = sconst 0
   \<and> \<not> fst (attemptShot ((1/2::real) ## sconst 0))
   \<and> executeAITurn (initializeGame GAME_CONFIG 0 0) (GAME_CONFIG\<lparr> blankProbability := 1 \<rparr>)
         ((1/2::real) ## sconst 0) 0
       = executeAITurn (initializeGame GAME_CONFIG 0 0) GAME_CONFIG ((1/2::real) ## sconst 0) 0"
  using C2_attemptShot_fixed_half [where g = "(1/2::real) ## sconst 0"
      and s = "initializeGame GAME_CONFIG 0 0" and config = GAME_CONFIG and p = 1 and now = 0]
  by simp

section \<open>The opponent policy\<close>







section \<open>Damage and the alive actors\<close>

lemma findIndex_sat: "0 \<le> findIndex P xs \<Longrightarrow> P (xs ! nat (findIndex P xs))"
proof (induction xs)
  case Nil
  then show ?case by simp
next
  case (Cons x xs)
  show ?case
  proof (cases "P x")
    case True
    then show ?thesis by simp
  next
    case False
    with Cons.prems have nn: "0 \<le> findIndex P xs"
      by (simp add: Let_def split: if_splits)
    then have "nat (findIndex P xs + 1) = Suc (nat (findIndex P xs))" by simp
    with False nn Cons.IH show ?thesis by (simp add: Let_def)
  qed
qed

lemma js_index_findIndex:
  assumes "js_index xs (findIndex P xs) = Some x"
  shows "nat (findIndex P xs) < length xs \<and> x = xs ! nat (findIndex P xs) \<and> P x"
proof -
  from assms have b: "0 \<le> findIndex P xs" "findIndex P xs < int (length xs)"
    and x: "x = xs ! nat (findIndex P xs)"
    by (auto simp: js_index_def split: if_splits)
  from b have "nat (findIndex P xs) < length xs" by (simp add: nat_less_iff)
  with x findIndex_sat[OF b(1)] show ?thesis by simp
qed

lemma hit_on_refl: "hit_on ps ps"
  by (simp add: hit_on_def)

lemma hit_on_findIndex:
  "js_index ps (findIndex P ps) = Some tg
     \<Longrightarrow> hit_on ps (ps[nat (findIndex P ps) := applyDamage tg])"
  using js_index_findIndex[of ps P tg] by (auto simp: hit_on_def)

lemma reducer_hit_on:
  assumes "session_action a" "gameReducer now s a = Inr s'"
  shows "hit_on (players s) (players s')"
proof (cases a)
  case (SHOT_RESULT isHit)
  show ?thesis
  proof (cases isHit)
    case True
    with SHOT_RESULT assms(2) show ?thesis
      by (auto simp: Let_def recordTurn_def hit_on_findIndex split: option.splits)
  next
    case False
    with SHOT_RESULT assms(2) show ?thesis
      by (auto simp: Let_def recordTurn_def hit_on_refl split: option.splits if_splits)
  qed
qed (use assms in \<open>auto simp: hit_on_refl\<close>)

lemma executeAITurn_hit_on:
  assumes "executeAITurn s config g t = Inr us" "u \<in> set us"
  shows "hit_on (players s) (players u)"
  using assms
  by (auto simp: executeAITurn_def Let_def recordTurn_def hit_on_refl hit_on_findIndex
      split: option.splits if_splits sum.splits prod.splits)

lemma update_whole: "spread s (whole u) = u"
  by (simp add: spread_def whole_def)

lemma step_hit_on: "step s s' \<Longrightarrow> hit_on (players s) (players s')"
proof (induction rule: step.induct)
  case (dispatch a now s s')
  then show ?case by (rule reducer_hit_on)
next
  case (ai_turn s config g t us u now s')
  then have "s' = u" by (simp add: update_whole)
  with ai_turn show ?case by (simp add: executeAITurn_hit_on)
qed

lemma hit_on_dead_inv:
  assumes "hit_on ps ps'" "dead_inv ps"
  shows "dead_inv ps'"
proof -
  from assms(1) consider "ps' = ps" | i where "i < length ps" "ps' = ps[i := applyDamage (ps ! i)]"
    by (auto simp: hit_on_def)
  then show ?thesis
  proof cases
    case 1
    with assms(2) show ?thesis by simp
  next
    case 2
    have "\<not> isAlive (applyDamage (ps ! i)) \<longrightarrow> health (applyDamage (ps ! i)) \<le> 0"
      by (simp add: applyDamage_sel)
    moreover have "set ps' \<subseteq> insert (applyDamage (ps ! i)) (set ps)"
      using 2 by (simp add: set_update_subset_insert)
    ultimately show ?thesis
      using assms(2) unfolding dead_inv_def by blast
  qed
qed

lemma reachable_dead_inv: "reachable s \<Longrightarrow> dead_inv (players s)"
proof (induction rule: reachable.induct)
  case (init config t0 t1)
  show ?case by (simp add: dead_inv_def initializeGame_players)
next
  case (next_state s s')
  then show ?case using hit_on_dead_inv step_hit_on by blast
qed

lemma hit_on_no_resurrection:
  assumes "hit_on ps ps'" "dead_inv ps"
  shows "length ps' = length ps \<and> map id_player ps' = map id_player ps
         \<and> map type_player ps' = map type_player ps
         \<and> (\<forall>i < length ps. \<not> isAlive (ps ! i) \<longrightarrow> \<not> isAlive (ps' ! i))"
proof -
  from assms(1) consider "ps' = ps" | i where "i < length ps" "ps' = ps[i := applyDamage (ps ! i)]"
    by (auto simp: hit_on_def)
  then show ?thesis
  proof cases
    case 1
    then show ?thesis by simp
  next
    case 2
    have idp: "id_player (applyDamage (ps ! i)) = id_player (ps ! i)"
      and tyeq: "type_player (applyDamage (ps ! i)) = type_player (ps ! i)"
      by (simp_all add: applyDamage_sel)
    have "(map id_player ps)[i := id_player (ps ! i)] = map id_player ps"
      using 2(1) list_update_id[of "map id_player ps" i] by simp
    then have m1: "map id_player ps' = map id_player ps"
      using 2 by (simp add: map_update idp)
    have "(map type_player ps)[i := type_player (ps ! i)] = map type_player ps"
      using 2(1) list_update_id[of "map type_player ps" i] by simp
    then have m2: "map type_player ps' = map type_player ps"
      using 2 by (simp add: map_update tyeq)
    have dead: "\<not> isAlive (ps ! j) \<longrightarrow> \<not> isAlive (ps' ! j)" if j: "j < length ps" for j
    proof (cases "j = i")
      case True
      have "ps ! i \<in> set ps" using 2(1) by simp
      with assms(2) have "\<not> isAlive (ps ! i) \<longrightarrow> health (ps ! i) \<le> 0"
        by (simp add: dead_inv_def)
      moreover have "fl64 (health (ps ! i) - 1) \<le> 0" if "health (ps ! i) \<le> 0"
        using that by (intro fl64_nonpos) simp
      ultimately have "\<not> isAlive (ps ! i) \<longrightarrow> \<not> isAlive (applyDamage (ps ! i))"
        by (auto simp: applyDamage_sel)
      then show ?thesis using True 2 by simp
    next
      case False
      then show ?thesis using 2 by simp
    qed
    show ?thesis using 2 m1 m2 dead by simp
  qed
qed

lemma filter_count_mono:
  assumes "length xs = length ys" "\<forall>i < length xs. P (ys ! i) \<longrightarrow> P (xs ! i)"
  shows "length (filter P ys) \<le> length (filter P xs)"
  using assms
proof (induction xs ys rule: list_induct2)
  case Nil
  then show ?case by simp
next
  case (Cons x xs y ys)
  from Cons.prems have hd: "P y \<longrightarrow> P x" by auto
  from Cons.prems have "\<forall>i < length xs. P (ys ! i) \<longrightarrow> P (xs ! i)" by fastforce
  with Cons.IH have "length (filter P ys) \<le> length (filter P xs)" by simp
  with hd show ?case by auto
qed

text \<open>
  Claim C6.  In every state reached from an initial state, every step of the session (a
  dispatched session action, or a state handed over by an autonomous turn) keeps the
  list of actors and their ids, leaves every not-alive actor not alive, and so does not
  increase the number of alive actors.
\<close>

theorem C6_alive_set_shrinks:
  assumes "reachable s" "step s s'"
  shows "length (players s') = length (players s)
         \<and> map id_player (players s') = map id_player (players s)
         \<and> (\<forall>i < length (players s). \<not> isAlive (players s ! i) \<longrightarrow> \<not> isAlive (players s' ! i))
         \<and> length (filter isAlive (players s')) \<le> length (filter isAlive (players s))"
proof -
  from assms have h: "hit_on (players s) (players s')" and d: "dead_inv (players s)"
    by (simp_all add: step_hit_on reachable_dead_inv)
  from hit_on_no_resurrection[OF h d]
  have nr: "length (players s') = length (players s)"
    "map id_player (players s') = map id_player (players s)"
    "\<forall>i < length (players s). \<not> isAlive (players s ! i) \<longrightarrow> \<not> isAlive (players s' ! i)"
    by simp_all
  then have "\<forall>i < length (players s). isAlive (players s' ! i) \<longrightarrow> isAlive (players s ! i)"
    by blast
  with nr(1) have "length (filter isAlive (players s')) \<le> length (filter isAlive (players s))"
    by (intro filter_count_mono) simp_all
  with nr show ?thesis by simp
qed

text \<open>A step of a session that kills: with starting health 1, a hit on \<open>ai-1\<close>.\<close>

theorem C6_alive_set_shrinks_witness:
  "\<exists>s s'. reachable s \<and> step s s'
      \<and> map isAlive (players s) = [True, True, True, True, True]
      \<and> map isAlive (players s') = [True, False, True, True, True]
      \<and> length (filter isAlive (players s')) \<le> length (filter isAlive (players s))"
proof -
  let ?i = "initializeGame (GAME_CONFIG\<lparr> startingHealth := 1 \<rparr>) 0 0"
  let ?s = "?i\<lparr> selectedTarget := Some ''ai-1'' \<rparr>"
  let ?s' = "projr (gameReducer (0, 0) ?s (SHOT_RESULT True))"
  have "step ?i ?s"
    by (rule step.dispatch[where a = "SELECT_TARGET ''ai-1''" and now = "(0, 0)"]) simp_all
  with reachable.init have r: "reachable ?s"
    by (rule reachable.next_state)
  have red: "gameReducer (0, 0) ?s (SHOT_RESULT True) = Inr ?s'"
    by (simp add: initializeGame_players js_index_def Let_def)
  have st: "step ?s ?s'"
    using step.dispatch[OF _ red] by simp
  have a: "map isAlive (players ?s) = [True, True, True, True, True]"
    by (simp add: initializeGame_players)
  have b: "map isAlive (players ?s') = [True, False, True, True, True]"
    by (simp add: initializeGame_players js_index_def Let_def applyDamage_def recordTurn_def
          GAME_CONFIG_def)
  from C6_alive_set_shrinks[OF r st]
  have le: "length (filter isAlive (players ?s')) \<le> length (filter isAlive (players ?s))"
    by (rule conjunct2[OF conjunct2[OF conjunct2]])
  show ?thesis
    by (rule exI[of _ ?s], rule exI[of _ ?s']) (intro conjI r st a b le)
qed

section \<open>Stored health\<close>

lemma health_inv_hit:
  assumes "health_inv ps" "i < length ps" "isAlive (ps ! i)"
  shows "health_inv (ps[i := applyDamage (ps ! i)])"
proof -
  let ?h = "health (ps ! i)"
  let ?z = "\<lfloor>?h\<rfloor>"
  have "ps ! i \<in> set ps" using assms(2) by simp
  with assms(1) have h: "?h = of_int ?z" "?h < 2 ^ 53" "isAlive (ps ! i) \<longleftrightarrow> 0 < ?h"
    by (auto simp: health_inv_def)
  from h(3) assms(3) have "0 < ?h" by simp
  then have "0 < (of_int ?z :: real)" by (subst h(1)[symmetric])
  then have "0 < ?z" by (simp only: of_int_0_less_iff)
  then have z1: "1 \<le> ?z" by linarith
  from h(2) have "?z < 2 ^ 53" by (simp add: floor_less_iff)
  with z1 have "\<bar>?z - 1\<bar> < 2 ^ 53" by linarith
  then have "fl64 (of_int (?z - 1)) = of_int (?z - 1)" by (rule fl64_of_int)
  moreover have "(of_int (?z - 1) :: real) = of_int ?z - 1" by simp
  moreover have "?h - 1 = of_int ?z - 1" using h(1) by linarith
  ultimately have fl: "fl64 (?h - 1) = of_int (?z - 1)" by (simp only:)
  have lt: "(of_int (?z - 1) :: real) < 2 ^ 53"
    using h(1,2) \<open>(of_int (?z - 1) :: real) = of_int ?z - 1\<close> by linarith
  have nn: "(0::real) \<le> of_int (?z - 1)" using z1 by simp
  have new: "health (applyDamage (ps ! i)) = of_int \<lfloor>health (applyDamage (ps ! i))\<rfloor>
       \<and> 0 \<le> health (applyDamage (ps ! i)) \<and> health (applyDamage (ps ! i)) < 2 ^ 53
       \<and> (isAlive (applyDamage (ps ! i)) \<longleftrightarrow> 0 < health (applyDamage (ps ! i)))"
    unfolding applyDamage_sel fl using lt nn by (simp only: floor_of_int simp_thms)
  have "set (ps[i := applyDamage (ps ! i)]) \<subseteq> insert (applyDamage (ps ! i)) (set ps)"
    by (rule set_update_subset_insert)
  with new assms(1) show ?thesis
    unfolding health_inv_def by blast
qed

lemma reducer_health_inv:
  assumes inv: "health_inv (players s)"
    and act: "session_action a"
    and red: "gameReducer now s a = Inr s'"
    and guard: "a = SHOT_RESULT True \<longrightarrow>
       (\<exists>tg. js_index (players s)
                (findIndex (\<lambda>p. Some (id_player p) = selectedTarget s) (players s)) = Some tg
              \<and> isAlive tg)"
  shows "health_inv (players s')"
proof (cases a)
  case (SHOT_RESULT isHit)
  show ?thesis
  proof (cases isHit)
    case True
    with SHOT_RESULT guard obtain tg where
      tg: "js_index (players s)
             (findIndex (\<lambda>p. Some (id_player p) = selectedTarget s) (players s)) = Some tg"
      and al: "isAlive tg"
      by auto
    let ?i = "nat (findIndex (\<lambda>p. Some (id_player p) = selectedTarget s) (players s))"
    from js_index_findIndex[OF tg] have i: "?i < length (players s)" and e: "tg = players s ! ?i"
      by simp_all
    from health_inv_hit[OF inv i] al e
    have "health_inv ((players s)[?i := applyDamage tg])" by simp
    moreover have "players s' = (players s)[?i := applyDamage tg]"
      using red SHOT_RESULT True tg by (auto simp: Let_def recordTurn_def)
    ultimately show ?thesis by simp
  next
    case False
    with SHOT_RESULT red inv show ?thesis
      by (auto simp: Let_def recordTurn_def split: option.splits if_splits)
  qed
qed (use inv act red in auto)

lemma js_index_mem: "js_index xs i = Some x \<Longrightarrow> x \<in> set xs"
  by (auto simp: js_index_def nat_less_iff split: if_splits)

lemma decide_fallback_sound:
  "decide_fallback alive g = Inr (t, g') \<Longrightarrow> t \<in> id_player ` set alive"
  by (auto simp: decide_fallback_def split: option.splits dest: js_index_mem)

lemma decide_lowest_ai_sound:
  assumes "decide_lowest_ai alive g = Inr (t, g')"
  shows "t \<in> id_player ` set alive"
proof (cases "filter (\<lambda>p. type_player p = AI) alive = []")
  case True
  with assms show ?thesis
    by (simp add: decide_lowest_ai_def decide_fallback_sound)
next
  case False
  let ?ai = "filter (\<lambda>p. type_player p = AI) alive"
  have "0 < length (sort_key health ?ai)" using False by simp
  then have "sort_key health ?ai ! 0 \<in> set (sort_key health ?ai)"
    by (rule nth_mem)
  then have "sort_key health ?ai ! 0 \<in> set alive" by simp
  with assms False show ?thesis
    by (auto simp: decide_lowest_ai_def)
qed

lemma decide_human_sound:
  assumes "decide_human alive g = Inr (t, g')"
  shows "t \<in> id_player ` set alive"
proof (cases "find (\<lambda>p. type_player p = HUMAN) alive")
  case None
  with assms show ?thesis
    by (simp add: decide_human_def decide_lowest_ai_sound)
next
  case (Some h)
  then have "h \<in> set alive"
    by (auto simp: find_Some_iff)
  with assms Some show ?thesis
    by (auto simp: decide_human_def split: if_splits dest: decide_lowest_ai_sound)
qed

lemma decideTarget_sound:
  assumes "decideTarget aiPlayer allPlayers aiMems config g = Inr (t, g')"
  shows "t \<in> id_player `
           set (filter (\<lambda>p. isAlive p \<and> id_player p \<noteq> id_player aiPlayer) allPlayers)"
proof (cases "aiMems (id_player aiPlayer)")
  case None
  with assms have "decide_human
      (filter (\<lambda>p. isAlive p \<and> id_player p \<noteq> id_player aiPlayer) allPlayers) g = Inr (t, g')"
    by (simp add: decideTarget_def)
  then show ?thesis by (rule decide_human_sound)
next
  case (Some m)
  let ?alive = "filter (\<lambda>p. isAlive p \<and> id_player p \<noteq> id_player aiPlayer) allPlayers"
  let ?gt = "filter (\<lambda>p. id_player p \<in> set (grudges m)) ?alive"
  show ?thesis
  proof (cases "grudges m \<noteq> [] \<and> ?gt \<noteq> [] \<and> shd g < 4/5")
    case False
    with assms Some have "decide_human ?alive g = Inr (t, g')
        \<or> decide_human ?alive (stl g) = Inr (t, g')"
      by (auto simp: decideTarget_def Let_def split: if_splits)
    then show ?thesis using decide_human_sound by blast
  next
    case True
    with assms Some obtain p where
      "js_index ?gt \<lfloor>shd (stl g) * real (length ?gt)\<rfloor> = Some p" "t = id_player p"
      by (auto simp: decideTarget_def Let_def split: option.splits)
    then have "p \<in> set ?gt" "t = id_player p" by (auto dest: js_index_mem)
    then show ?thesis by auto
  qed
qed

lemma findIndex_distinct:
  assumes "distinct (map f xs)" "x \<in> set xs"
  shows "js_index xs (findIndex (\<lambda>q. f q = f x) xs) = Some x"
  using assms
proof (induction xs)
  case Nil
  then show ?case by simp
next
  case (Cons y ys)
  show ?case
  proof (cases "f y = f x")
    case True
    with Cons.prems have "x = y" by force
    with True show ?thesis by (simp add: js_index_def)
  next
    case False
    with Cons.prems have "x \<in> set ys" "distinct (map f ys)" by auto
    with Cons.IH have ih: "js_index ys (findIndex (\<lambda>q. f q = f x) ys) = Some x" by simp
    then have b: "0 \<le> findIndex (\<lambda>q. f q = f x) ys"
        "findIndex (\<lambda>q. f q = f x) ys < int (length ys)"
      and e: "x = ys ! nat (findIndex (\<lambda>q. f q = f x) ys)"
      by (auto simp: js_index_def split: if_splits)
    from b have "nat (findIndex (\<lambda>q. f q = f x) ys + 1) = Suc (nat (findIndex (\<lambda>q. f q = f x) ys))"
      by simp
    with False b e show ?thesis
      by (simp add: js_index_def Let_def)
  qed
qed

lemma executeAITurn_players:
  assumes "executeAITurn s config g t = Inr us" "u \<in> set us"
  shows "players u = players s
     \<or> (\<exists>sh tid g' tg.
           decideTarget sh (players s) (aiMemories s) config (stl g) = Inr (tid, g')
           \<and> js_index (players s) (findIndex (\<lambda>p. id_player p = tid) (players s)) = Some tg
           \<and> players u
               = (players s)[nat (findIndex (\<lambda>p. id_player p = tid) (players s))
                    := applyDamage tg])"
proof (cases "find (\<lambda>p. Some (id_player p) = currentShooter s) (players s)")
  case None
  with assms show ?thesis by (simp add: executeAITurn_def)
next
  case (Some sh)
  show ?thesis
  proof (cases "decideTarget sh (players s) (aiMemories s) config (stl g)")
    case (Inl e)
    with assms Some show ?thesis by (auto simp: executeAITurn_def split: if_splits)
  next
    case (Inr r)
    obtain tid g' where r: "r = (tid, g')" by (cases r)
    let ?i = "findIndex (\<lambda>p. id_player p = tid) (players s)"
    show ?thesis
    proof (cases "fst (attemptShot g')")
      case False
      with assms Some Inr r show ?thesis
        by (auto simp: executeAITurn_def Let_def recordTurn_def split: if_splits)
    next
      case True
      show ?thesis
      proof (cases "js_index (players s) ?i")
        case None
        with assms Some Inr r True show ?thesis
          by (auto simp: executeAITurn_def Let_def split: if_splits)
      next
        case (Some tg)
        with assms \<open>find (\<lambda>p. Some (id_player p) = currentShooter s) (players s) = Some sh\<close>
          Inr r True
        have "players u = players s \<or> players u = (players s)[nat ?i := applyDamage tg]"
          by (auto simp: executeAITurn_def Let_def recordTurn_def split: if_splits)
        with Inr r Some show ?thesis by blast
      qed
    qed
  qed
qed

lemma executeAITurn_health_inv:
  assumes inv: "health_inv (players s)"
    and dist: "distinct (map id_player (players s))"
    and ex: "executeAITurn s config g t = Inr us"
    and u: "u \<in> set us"
  shows "health_inv (players u)"
proof -
  from executeAITurn_players[OF ex u]
  consider "players u = players s"
    | sh tid g' tg where
        "decideTarget sh (players s) (aiMemories s) config (stl g) = Inr (tid, g')"
        "js_index (players s) (findIndex (\<lambda>p. id_player p = tid) (players s)) = Some tg"
        "players u = (players s)[nat (findIndex (\<lambda>p. id_player p = tid) (players s))
                        := applyDamage tg]"
    by blast
  then show ?thesis
  proof cases
    case 1
    with inv show ?thesis by simp
  next
    case 2
    from decideTarget_sound[OF 2(1)] obtain p where
      p: "p \<in> set (players s)" "isAlive p" "tid = id_player p"
      by auto
    from findIndex_distinct[OF dist p(1)] p(3) 2(2) have "tg = p" by simp
    with p have al: "isAlive tg" by simp
    let ?i = "nat (findIndex (\<lambda>p. id_player p = tid) (players s))"
    from js_index_findIndex[OF 2(2)] have i: "?i < length (players s)" and e: "tg = players s ! ?i"
      by simp_all
    from health_inv_hit[OF inv i] al e 2(3) show ?thesis by simp
  qed
qed

text \<open>
  The reducer damages whichever actor is selected, alive or not: four human turns that
  each hit \<open>ai-1\<close> (starting health 3) leave it with health \<open>-1\<close>.
\<close>

theorem C4_counterexample:
  "map_sum id (\<lambda>s. map health (players s))
     (run (0, 0) (initializeGame GAME_CONFIG 0 0)
        (human_turn 1080 ''ai-1'' True @ human_turn 1080 ''ai-1'' True
         @ human_turn 1080 ''ai-1'' True @ human_turn 1080 ''ai-1'' True))
   = Inr [3, - 1, 3, 3, 3]"
  by (simp add: human_turn_def initializeGame_players initializeGame_fields GAME_CONFIG_def
        js_index_def applyDamage_def recordTurn_def Let_def)

text \<open>
  Claim C4, as the code has it.  \<open>applyDamage\<close> subtracts one from health and sets the
  alive flag to \<open>health > 0\<close>, whatever the actor's state; for an integer health of
  magnitude below \<open>2^53\<close> the double subtraction is exact, so health goes down by exactly
  one.  The initial state of a configuration whose starting health is an integer from
  \<open>1\<close> to below \<open>2^53\<close> has integer healths, none negative, and alive flags that agree
  with health; a session action of the reducer keeps this whenever its hit, if any,
  lands on an alive actor, and so does an autonomous turn (whose target is always alive)
  when the ids are distinct.
\<close>

theorem C4_health_nonnegative_when_targets_alive:
  "(health p = of_int z \<and> \<bar>z\<bar> < 2 ^ 53
      \<longrightarrow> health (applyDamage p) = health p - 1
          \<and> isAlive (applyDamage p) = (0 < health p - 1))
   \<and> isAlive (applyDamage p) = (0 < health (applyDamage p))
   \<and> (startingHealth config = of_int n \<and> 1 \<le> n \<and> n < 2 ^ 53
      \<longrightarrow> health_inv (players (initializeGame config t0 t1)))
   \<and> (health_inv (players s) \<and> session_action a \<and> gameReducer now s a = Inr s'
        \<and> (a = SHOT_RESULT True \<longrightarrow>
             (\<exists>tg. js_index (players s)
                      (findIndex (\<lambda>p. Some (id_player p) = selectedTarget s) (players s))
                    = Some tg \<and> isAlive tg))
       \<longrightarrow> health_inv (players s') \<and> (\<forall>p \<in> set (players s'). 0 \<le> health p))
   \<and> (health_inv (players s) \<and> distinct (map id_player (players s))
        \<and> executeAITurn s config g tm = Inr us \<and> u \<in> set us
       \<longrightarrow> health_inv (players u) \<and> (\<forall>p \<in> set (players u). 0 \<le> health p))"
proof -
  have dmg: "health (applyDamage p) = health p - 1
      \<and> isAlive (applyDamage p) = (0 < health p - 1)"
    if "health p = of_int z \<and> \<bar>z\<bar> < 2 ^ 53"
  proof -
    from that have "\<bar>z - 1\<bar> \<le> 2 ^ 53" by linarith
    then have "fl64 (of_int (z - 1)) = of_int (z - 1)" by (rule fl64_of_int_le)
    moreover have "(of_int (z - 1) :: real) = health p - 1" using that by simp
    ultimately have "fl64 (health p - 1) = health p - 1" by (simp only:)
    then show ?thesis by (simp only: applyDamage_sel simp_thms)
  qed
  have flag: "isAlive (applyDamage p) = (0 < health (applyDamage p))"
    by (simp only: applyDamage_sel)
  have ini: "health_inv (players (initializeGame config t0 t1))"
    if "startingHealth config = of_int n \<and> 1 \<le> n \<and> n < 2 ^ 53"
  proof -
    from that have "(of_int n :: real) < of_int (2 ^ 53)" "(of_int 1 :: real) \<le> of_int n"
      by (simp_all only: of_int_less_iff of_int_le_iff)
    then have "(of_int n :: real) < 2 ^ 53" "(1 :: real) \<le> of_int n" by simp_all
    with that show ?thesis
      by (simp add: health_inv_def initializeGame_players)
  qed
  have pos: "\<forall>p \<in> set ps. 0 \<le> health p" if "health_inv ps" for ps
    using that by (simp add: health_inv_def)
  have stp: "health_inv (players s') \<and> (\<forall>p \<in> set (players s'). 0 \<le> health p)"
    if "health_inv (players s) \<and> session_action a \<and> gameReducer now s a = Inr s'
        \<and> (a = SHOT_RESULT True \<longrightarrow>
             (\<exists>tg. js_index (players s)
                      (findIndex (\<lambda>p. Some (id_player p) = selectedTarget s) (players s))
                    = Some tg \<and> isAlive tg))"
  proof -
    from that have "health_inv (players s')"
      by (intro reducer_health_inv[of s a now s']) simp_all
    with pos show ?thesis by simp
  qed
  have ait: "health_inv (players u) \<and> (\<forall>p \<in> set (players u). 0 \<le> health p)"
    if "health_inv (players s) \<and> distinct (map id_player (players s))
        \<and> executeAITurn s config g tm = Inr us \<and> u \<in> set us"
  proof -
    from that have "health_inv (players u)"
      by (intro executeAITurn_health_inv[of s config g tm us u]) simp_all
    with pos show ?thesis by simp
  qed
  from dmg flag ini stp ait show ?thesis by blast
qed

text \<open>
  In the initial state (starting health 3): a hit of the reducer on the alive \<open>ai-1\<close>
  and an autonomous turn in which \<open>ai-1\<close> hits \<open>ai-2\<close>; health 3 becomes 2.
\<close>

theorem C4_health_nonnegative_when_targets_alive_witness:
  "health (players (initializeGame GAME_CONFIG 0 0) ! 1) = of_int 3 \<and> \<bar>3 :: int\<bar> < 2 ^ 53
   \<and> health (applyDamage (players (initializeGame GAME_CONFIG 0 0) ! 1)) = 2
   \<and> startingHealth GAME_CONFIG = of_int 3 \<and> (1::int) \<le> 3 \<and> (3::int) < 2 ^ 53
   \<and> health_inv (players (initializeGame GAME_CONFIG 0 0))
   \<and> session_action (SHOT_RESULT True)
   \<and> js_index (players (initializeGame GAME_CONFIG 0 0))
        (findIndex (\<lambda>p. Some (id_player p) = Some ''ai-1'')
           (players (initializeGame GAME_CONFIG 0 0)))
       = Some (players (initializeGame GAME_CONFIG 0 0) ! 1)
   \<and> isAlive (players (initializeGame GAME_CONFIG 0 0) ! 1)
   \<and> map_sum id (\<lambda>s. map health (players s))
        (gameReducer (0, 0)
           ((initializeGame GAME_CONFIG 0 0)\<lparr> selectedTarget := Some ''ai-1'' \<rparr>)
           (SHOT_RESULT True))
       = Inr [3, 2, 3, 3, 3]
   \<and> health_inv (players (projr (gameReducer (0, 0)
           ((initializeGame GAME_CONFIG 0 0)\<lparr> selectedTarget := Some ''ai-1'' \<rparr>)
           (SHOT_RESULT True))))
   \<and> distinct (map id_player (players (initializeGame GAME_CONFIG 0 0)))
   \<and> map_sum id (map (\<lambda>u. map health (players u)))
        (executeAITurn ((initializeGame GAME_CONFIG 0 0)\<lparr> currentShooter := Some ''ai-1'' \<rparr>)
           GAME_CONFIG (sconst (3/4)) 0)
       = Inr [[3, 3, 3, 3, 3], [3, 3, 2, 3, 3], [3, 3, 2, 3, 3]]
   \<and> health_inv (players (projr
        (executeAITurn ((initializeGame GAME_CONFIG 0 0)\<lparr> currentShooter := Some ''ai-1'' \<rparr>)
           GAME_CONFIG (sconst (3/4)) 0) ! 1))"
proof -
  let ?i = "initializeGame GAME_CONFIG 0 0"
  let ?s = "?i\<lparr> selectedTarget := Some ''ai-1'' \<rparr>"
  let ?sa = "?i\<lparr> currentShooter := Some ''ai-1'' \<rparr>"
  let ?E = "executeAITurn ?sa GAME_CONFIG (sconst (3/4)) 0"
  note ev = executeAITurn_def decideTarget_def decide_human_def decide_lowest_ai_def
    attemptShot_def recordTurn_def initializeGame_players initializeGame_fields
    js_index_def applyDamage_def checkGameOver_def Let_def GAME_CONFIG_def
  have red: "gameReducer (0, 0) ?s (SHOT_RESULT True)
             = Inr (projr (gameReducer (0, 0) ?s (SHOT_RESULT True)))"
    by (simp add: initializeGame_players js_index_def Let_def)
  have ix: "js_index (players ?i)
        (findIndex (\<lambda>p. Some (id_player p) = Some ''ai-1'') (players ?i))
       = Some (players ?i ! 1)"
    by (simp add: initializeGame_players js_index_def Let_def)
  have al: "isAlive (players ?i ! 1)"
    by (simp add: initializeGame_players)
  have h3: "health (players ?i ! 1) = of_int 3" "startingHealth GAME_CONFIG = of_int 3"
    by (simp_all add: initializeGame_players GAME_CONFIG_def)
  have n3: "\<bar>3 :: int\<bar> < 2 ^ 53" "(1::int) \<le> 3" "(3::int) < 2 ^ 53" by simp_all
  have d2: "health (applyDamage (players ?i ! 1)) = 2"
    by (simp add: applyDamage_sel initializeGame_players GAME_CONFIG_def)
  have hs: "map_sum id (\<lambda>s. map health (players s)) (gameReducer (0, 0) ?s (SHOT_RESULT True))
       = Inr [3, 2, 3, 3, 3]"
    by (simp add: initializeGame_players js_index_def Let_def applyDamage_def recordTurn_def
          GAME_CONFIG_def)
  have di: "distinct (map id_player (players ?i))"
    by (simp add: initializeGame_players)
  have eh: "map_sum id (map (\<lambda>u. map health (players u))) ?E
       = Inr [[3, 3, 3, 3, 3], [3, 3, 2, 3, 3], [3, 3, 2, 3, 3]]"
    by (simp add: ev)
  have isr: "?E = Inr (projr ?E)" by (simp add: ev)
  have u: "projr ?E ! 1 \<in> set (projr ?E)" by (simp add: ev)
  from C4_health_nonnegative_when_targets_alive [where config = GAME_CONFIG and ?t0.0 = 0
      and ?t1.0 = 0 and n = 3, THEN conjunct2, THEN conjunct2, THEN conjunct1] h3(2) n3
  have hi: "health_inv (players ?i)" by simp
  from C4_health_nonnegative_when_targets_alive [where s = ?s and a = "SHOT_RESULT True"
      and now = "(0, 0)" and s' = "projr (gameReducer (0, 0) ?s (SHOT_RESULT True))",
      THEN conjunct2, THEN conjunct2, THEN conjunct2, THEN conjunct1] hi red ix al
  have r1: "health_inv (players (projr (gameReducer (0, 0) ?s (SHOT_RESULT True))))"
    by simp
  from C4_health_nonnegative_when_targets_alive [where s = ?sa and config = GAME_CONFIG
      and g = "sconst (3/4)" and tm = 0 and us = "projr ?E" and u = "projr ?E ! 1",
      THEN conjunct2, THEN conjunct2, THEN conjunct2, THEN conjunct2] hi di isr u
  have r2: "health_inv (players (projr ?E ! 1))"
    by simp
  from h3 n3 d2 hi ix al hs r1 di eh r2 show ?thesis
    by (simp only: simp_thms session_action.simps)
qed

section \<open>Who gets a grudge\<close>

lemma reachable_roster:
  "reachable s \<Longrightarrow>
     map id_player (players s) = [''player-0'', ''ai-1'', ''ai-2'', ''ai-3'', ''ai-4'']
     \<and> map type_player (players s) = [HUMAN, AI, AI, AI, AI]"
proof (induction rule: reachable.induct)
  case (init config t0 t1)
  show ?case by (simp add: initializeGame_players)
next
  case (next_state s s')
  from hit_on_no_resurrection[OF step_hit_on[OF next_state(2)]
      reachable_dead_inv[OF next_state(1)]] next_state.IH
  show ?case by simp
qed

lemma reachable_ai_prefix:
  assumes "reachable s" "p \<in> set (players s)"
  shows "(type_player p = AI) = startsWith (id_player p) ''ai-''"
proof -
  from reachable_roster[OF assms(1)]
  have ids: "map id_player (players s) = [''player-0'', ''ai-1'', ''ai-2'', ''ai-3'', ''ai-4'']"
    and tys: "map type_player (players s) = [HUMAN, AI, AI, AI, AI]"
    by simp_all
  from ids have "length (map id_player (players s)) = 5" by simp
  then have len: "length (players s) = 5" by simp
  from assms(2) obtain i where i: "i < length (players s)" "players s ! i = p"
    by (auto simp: in_set_conv_nth)
  from i have a: "id_player p = map id_player (players s) ! i"
    and b: "type_player p = map type_player (players s) ! i"
    by simp_all
  from i len have "i = 0 \<or> i = 1 \<or> i = 2 \<or> i = 3 \<or> i = 4" by arith
  then show ?thesis
    unfolding a b ids tys by (auto simp: startsWith_def)
qed

text \<open>
  In the reducer a blank fired by an autonomous actor leaves the memory alone: \<open>ai-2\<close>
  fires a blank at the autonomous \<open>ai-1\<close>, the turn is recorded as a blank, and \<open>ai-1\<close> holds
  no grudge.
\<close>

theorem C3_counterexample:
  "map_sum id
     (\<lambda>s. (map (\<lambda>r. (shooter r, target r, wasBlank r)) (turnHistory s),
           map type_player (filter (\<lambda>p. id_player p = ''ai-1'') (players s)),
           grudgeList (aiMemories s) ''ai-1''))
     (run (0, 0) (initializeGame GAME_CONFIG 0 0)
        [SPIN_REVOLVER, SET_SPINNER_RESULT 1224 ''ai-2'', SELECT_TARGET ''ai-1'', SHOOT,
         SHOT_RESULT False])
   = Inr ([(Some ''ai-2'', Some ''ai-1'', True)], [AI], [])"
  by (simp add: initializeGame_players initializeGame_fields recordTurn_def grudgeList_def
        Let_def)

lemma reducer_blank_human:
  assumes "currentShooter s = Some ''player-0''" "selectedTarget s = Some t"
    "startsWith t ''ai-''"
  shows "\<exists>s'. gameReducer now s (SHOT_RESULT False) = Inr s'
           \<and> ''player-0'' \<in> set (grudgeList (aiMemories s') t)"
  using assms by (simp add: recordTurn_def grudgeList_updateMemory_same)

lemma reducer_blank_other:
  assumes "currentShooter s \<noteq> Some ''player-0''"
  shows "\<exists>s'. gameReducer now s (SHOT_RESULT False) = Inr s' \<and> aiMemories s' = aiMemories s"
  using assms by (simp add: recordTurn_def)

lemma executeAITurn_blank:
  assumes ex: "executeAITurn s config g tm = Inr us" and u: "u \<in> set us"
    and h: "turnHistory u = turnHistory s @ [r]"
    and r: "wasBlank r" "target r = Some t" "startsWith t ''ai-''"
  shows "\<exists>sh. shooter r = Some sh \<and> currentShooter s = Some sh
           \<and> sh \<in> set (grudgeList (aiMemories u) t)"
proof (cases "find (\<lambda>p. Some (id_player p) = currentShooter s) (players s)")
  case None
  with ex u show ?thesis by (simp add: executeAITurn_def)
next
  case (Some sh)
  then have cs: "currentShooter s = Some (id_player sh)"
    by (auto simp: find_Some_iff)
  show ?thesis
  proof (cases "decideTarget sh (players s) (aiMemories s) config (stl g)")
    case (Inl e)
    with ex u Some show ?thesis by (auto simp: executeAITurn_def split: if_splits)
  next
    case (Inr res)
    obtain tid g' where res: "res = (tid, g')" by (cases res)
    from ex u Some Inr res h r cs show ?thesis
      by (auto simp: executeAITurn_def Let_def recordTurn_def grudgeList_updateMemory_same
          split: if_splits option.splits)
  qed
qed

text \<open>
  Claim C3, as the code has it.  A blank on a target whose id starts with \<open>ai-\<close> puts
  the shooter into the target's grudge list on both paths that resolve a shot for their
  own kind of shooter: the reducer's \<open>SHOT_RESULT\<close> when the human \<open>player-0\<close> is armed,
  and \<open>executeAITurn\<close> for the armed autonomous actor.  The reducer's \<open>SHOT_RESULT\<close> with
  anyone else armed leaves the memory unchanged.  In every reachable state the actors
  whose id starts with \<open>ai-\<close> are exactly the autonomous ones.
\<close>

theorem C3_grudge_insertion_paths:
  "(currentShooter s = Some ''player-0'' \<and> selectedTarget s = Some t \<and> startsWith t ''ai-''
      \<longrightarrow> (\<exists>s'. gameReducer now s (SHOT_RESULT False) = Inr s'
              \<and> ''player-0'' \<in> set (grudgeList (aiMemories s') t)))
   \<and> (executeAITurn s config g tm = Inr us \<and> u \<in> set us
        \<and> turnHistory u = turnHistory s @ [r]
        \<and> wasBlank r \<and> target r = Some t \<and> startsWith t ''ai-''
      \<longrightarrow> (\<exists>sh. shooter r = Some sh \<and> currentShooter s = Some sh
              \<and> sh \<in> set (grudgeList (aiMemories u) t)))
   \<and> (currentShooter s \<noteq> Some ''player-0''
      \<longrightarrow> (\<exists>s'. gameReducer now s (SHOT_RESULT False) = Inr s'
              \<and> aiMemories s' = aiMemories s))
   \<and> (reachable s \<and> p \<in> set (players s)
      \<longrightarrow> (type_player p = AI) = startsWith (id_player p) ''ai-'')"
  using reducer_blank_human[of s t now] executeAITurn_blank[of s config g tm us u r t]
    reducer_blank_other[of s now] reachable_ai_prefix[of s p]
  by blast

text \<open>
  The human's blank on \<open>ai-1\<close>; an autonomous turn in which \<open>ai-1\<close> fires a blank at
  \<open>ai-2\<close>; the reducer with \<open>ai-2\<close> armed; and the initial state's \<open>ai-1\<close>.
\<close>

theorem C3_grudge_insertion_paths_witness:
  "(\<exists>s'. gameReducer (0, 0)
            ((initializeGame GAME_CONFIG 0 0)
               \<lparr> currentShooter := Some ''player-0'', selectedTarget := Some ''ai-1'' \<rparr>)
            (SHOT_RESULT False) = Inr s'
         \<and> ''player-0'' \<in> set (grudgeList (aiMemories s') ''ai-1''))
   \<and> map_sum id (map (\<lambda>u. (map (\<lambda>r. (shooter r, target r, wasBlank r)) (turnHistory u),
                              grudgeList (aiMemories u) ''ai-2'')))
        (executeAITurn ((initializeGame GAME_CONFIG 0 0)\<lparr> currentShooter := Some ''ai-1'' \<rparr>)
           GAME_CONFIG (0 ## 3/4 ## sconst (1/4)) 0)
       = Inr [([], []),
              ([(Some ''ai-1'', Some ''ai-2'', True)], [''ai-1'']),
              ([(Some ''ai-1'', Some ''ai-2'', True)], [''ai-1''])]
   \<and> (\<exists>s'. gameReducer (0, 0)
            ((initializeGame GAME_CONFIG 0 0)\<lparr> currentShooter := Some ''ai-2'' \<rparr>)
            (SHOT_RESULT False) = Inr s'
         \<and> aiMemories s' = Map.empty)
   \<and> reachable (initializeGame GAME_CONFIG 0 0)
   \<and> type_player (players (initializeGame GAME_CONFIG 0 0) ! 1) = AI
   \<and> startsWith (id_player (players (initializeGame GAME_CONFIG 0 0) ! 1)) ''ai-''"
proof -
  let ?i = "initializeGame GAME_CONFIG 0 0"
  let ?sa = "?i\<lparr> currentShooter := Some ''ai-1'' \<rparr>"
  let ?E = "executeAITurn ?sa GAME_CONFIG (0 ## 3/4 ## sconst (1/4)) 0"
  have ev: "map_sum id (map (\<lambda>u. (map (\<lambda>r. (shooter r, target r, wasBlank r)) (turnHistory u),
                              grudgeList (aiMemories u) ''ai-2''))) ?E
       = Inr [([], []),
              ([(Some ''ai-1'', Some ''ai-2'', True)], [''ai-1'']),
              ([(Some ''ai-1'', Some ''ai-2'', True)], [''ai-1''])]"
    by (simp add: executeAITurn_def decideTarget_def decide_human_def decide_lowest_ai_def
        attemptShot_def recordTurn_def initializeGame_players initializeGame_fields
        js_index_def updateMemory_def startsWith_def grudgeList_def checkGameOver_def Let_def)
  have isr: "?E = Inr (projr ?E)"
    by (simp add: executeAITurn_def decideTarget_def decide_human_def decide_lowest_ai_def
        attemptShot_def recordTurn_def initializeGame_players initializeGame_fields
        js_index_def updateMemory_def startsWith_def grudgeList_def checkGameOver_def Let_def)
  have u: "projr ?E ! 1 \<in> set (projr ?E)"
    by (simp add: executeAITurn_def decideTarget_def decide_human_def decide_lowest_ai_def
        attemptShot_def recordTurn_def initializeGame_players initializeGame_fields
        js_index_def updateMemory_def startsWith_def grudgeList_def checkGameOver_def Let_def)
  have hist: "turnHistory (projr ?E ! 1)
        = turnHistory ?sa @ [last (turnHistory (projr ?E ! 1))]
      \<and> wasBlank (last (turnHistory (projr ?E ! 1)))
      \<and> target (last (turnHistory (projr ?E ! 1))) = Some ''ai-2''"
    by (simp add: executeAITurn_def decideTarget_def decide_human_def decide_lowest_ai_def
        attemptShot_def recordTurn_def initializeGame_players initializeGame_fields
        js_index_def updateMemory_def startsWith_def grudgeList_def checkGameOver_def Let_def)
  have pre: "startsWith ''ai-2'' ''ai-''" "startsWith ''ai-1'' ''ai-''"
    by (simp_all add: startsWith_def)
  have p: "players ?i ! 1 \<in> set (players ?i)" "type_player (players ?i ! 1) = AI"
    by (simp_all add: initializeGame_players)
  have r: "reachable ?i" by (rule reachable.init)
  from
    C3_grudge_insertion_paths [where
        s = "?i\<lparr> currentShooter := Some ''player-0'', selectedTarget := Some ''ai-1'' \<rparr>"
        and t = "''ai-1''" and now = "(0, 0)"]
    C3_grudge_insertion_paths [where s = ?sa and config = GAME_CONFIG
        and g = "0 ## 3/4 ## sconst (1/4)" and tm = 0 and us = "projr ?E"
        and u = "projr ?E ! 1" and r = "last (turnHistory (projr ?E ! 1))" and t = "''ai-2''"]
    C3_grudge_insertion_paths [where s = "?i\<lparr> currentShooter := Some ''ai-2'' \<rparr>"
        and now = "(0, 0)"]
    C3_grudge_insertion_paths [where s = ?i and p = "players ?i ! 1"]
    ev isr u hist pre p r
  show ?thesis
    by (simp add: initializeGame_fields)
qed

end
